theory Spec2Isabelle
  imports Main "HOL-Library.Sublist"
begin

section \<open>Repository names: \<open>path.Join\<close> and \<open>strings.TrimLeft\<close>\<close>

text \<open>
  \<open>Get\<close> builds the repository name with
  \<^verbatim>\<open>repoName := path.Join(op.url.Path, artifact)\<close> and
  \<^verbatim>\<open>repoName = strings.TrimLeft(repoName, "/")\<close>.
  Both are functions of Go's standard library on byte strings; they are embedded here
  as they are written there. A Go \<open>string\<close> is a sequence of bytes, as \<^typ>\<open>string\<close> is.
\<close>

abbreviation slash :: char where
  "slash \<equiv> CHR ''/''"

abbreviation dot :: char where
  "dot \<equiv> CHR ''.''"

abbreviation noSlash :: "char \<Rightarrow> bool" where
  "noSlash \<equiv> (\<lambda>x. x \<noteq> slash)"

text \<open>
  \<open>path.Clean\<close> writes into a buffer \<open>out\<close> of which the first \<open>out.w\<close> bytes are valid;
  the buffer is the list of these bytes here, and \<open>out.w\<close> is its length. On a \<open>..\<close>
  element that can backtrack, Go runs
  \<^verbatim>\<open>out.w--; for out.w > dotdot && out.index(out.w) != '/' { out.w-- }\<close>:
  \<open>backtrack\<close> is the \<open>for\<close> loop, on the index \<open>w\<close>. It starts below the length
  of the buffer and goes down, so it reads inside the buffer.
\<close>

function backtrack :: "nat \<Rightarrow> string \<Rightarrow> nat \<Rightarrow> nat" where
  "backtrack dotdot out w =
     (if w > dotdot \<and> out ! w \<noteq> slash then backtrack dotdot out (w - 1) else w)"
  by pat_completeness auto
termination
  by (relation "measure (\<lambda>(dotdot, out, w). w)") auto

declare backtrack.simps [simp del]

text \<open>
  The main loop of \<open>path.Clean\<close>, \<^verbatim>\<open>for r < n { switch { ... } }\<close>. The loop reads the
  path only from index \<open>r\<close> on, so the model carries the unread rest \<open>path[r:]\<close>; the state
  is the buffer and the index \<open>dotdot\<close> where \<open>..\<close> must stop. The four cases are in the
  order of the \<open>switch\<close>: an empty element, a \<open>.\<close> element, a \<open>..\<close> element, a real element
  (copied up to the next separator by the inner \<open>for\<close>). The test for \<open>..\<close> reads the
  second byte only after the test for \<open>.\<close> has failed, that is, where there is one.
\<close>

function cleanLoop :: "bool \<Rightarrow> string \<Rightarrow> string \<times> nat \<Rightarrow> string \<times> nat" where
  "cleanLoop rooted [] (out, dotdot) = (out, dotdot)"
| "cleanLoop rooted (c # cs) (out, dotdot) =
     (if c = slash then cleanLoop rooted cs (out, dotdot)
      else if c = dot \<and> (cs = [] \<or> hd cs = slash) then cleanLoop rooted cs (out, dotdot)
      else if c = dot \<and> hd cs = dot \<and> (tl cs = [] \<or> hd (tl cs) = slash) then
        cleanLoop rooted (tl cs)
          (if length out > dotdot then
             (take (backtrack dotdot out (length out - 1)) out, dotdot)
           else if \<not> rooted then
             (let out' = (if length out > 0 then out @ [slash] else out) @ [dot, dot]
              in (out', length out'))
           else (out, dotdot))
      else
        cleanLoop rooted (dropWhile noSlash (c # cs))
          ((if rooted \<and> length out \<noteq> 1 \<or> \<not> rooted \<and> length out \<noteq> 0
            then out @ [slash] else out) @ takeWhile noSlash (c # cs),
           dotdot))"
  by pat_completeness auto
termination
proof (relation "measure (\<lambda>(rooted, path, st). length path)")
  show "wf (measure (\<lambda>(rooted, path, st). length path))"
    by simp
next
  fix rooted :: bool and c :: char and cs :: string and out :: string and dotdot :: nat
  assume "c \<noteq> slash"
  then have "length (dropWhile noSlash (c # cs)) \<le> length cs"
    by (simp add: length_dropWhile_le)
  then show "((rooted, dropWhile noSlash (c # cs),
       (if rooted \<and> length out \<noteq> 1 \<or> \<not> rooted \<and> length out \<noteq> 0
        then out @ [slash] else out) @ takeWhile noSlash (c # cs), dotdot),
      rooted, c # cs, out, dotdot) \<in> measure (\<lambda>(rooted, path, st). length path)"
    by simp
qed auto

declare cleanLoop.simps [simp del]

text \<open>
  \<open>path.Clean\<close>: the empty path is \<open>"."\<close>; a rooted path starts the buffer with the
  separator and the loop at index 1; an empty result is \<open>"."\<close>.
\<close>

definition Clean :: "string \<Rightarrow> string" where
  "Clean path =
     (if path = [] then ''.''
      else
        let rooted = (hd path = slash);
            (out, dotdot) =
              (if rooted then cleanLoop rooted (tl path) ([slash], 1)
               else cleanLoop rooted path ([], 0))
        in if length out = 0 then ''.'' else out)"

text \<open>
  \<open>path.Join\<close>: nothing but empty elements gives the empty string; otherwise the
  elements are appended to a buffer, an element being skipped while the buffer is empty
  and the element is empty, with a separator before each appended element but the first,
  and the buffer is cleaned.
\<close>

fun joinBuf :: "string \<Rightarrow> string list \<Rightarrow> string" where
  "joinBuf buf [] = buf"
| "joinBuf buf (e # elem) =
     (if length buf > 0 \<or> e \<noteq> []
      then joinBuf ((if length buf > 0 then buf @ [slash] else buf) @ e) elem
      else joinBuf buf elem)"

definition Join :: "string list \<Rightarrow> string" where
  "Join elem =
     (if (\<Sum>e\<leftarrow>elem. length e) = 0 then [] else Clean (joinBuf [] elem))"

text \<open>
  \<open>strings.TrimLeft(s, cutset)\<close> drops the leading bytes of \<open>s\<close> that are in \<open>cutset\<close>
  (for a cutset of ASCII bytes, as the \<open>"/"\<close> of \<open>Get\<close>).
\<close>

definition TrimLeft :: "string \<Rightarrow> string \<Rightarrow> string" where
  "TrimLeft s cutset = dropWhile (\<lambda>c. c \<in> set cutset) s"

text \<open>The repository name of \<open>Get\<close>, from the URL's path and the artifact name.\<close>

definition repoName :: "string \<Rightarrow> string \<Rightarrow> string" where
  "repoName urlPath artifact = TrimLeft (Join [urlPath, artifact]) ''/''"

section \<open>Values of the provider\<close>

text \<open>
  A Go \<open>error\<close> is a value: one made by \<open>fmt.Errorf\<close> or a library, or one that wraps
  another with \<open>%w\<close>. \<open>errorString\<close> is its \<open>Error()\<close> text, which \<open>zap.Error\<close> logs.
\<close>

datatype error = Error string | Wrap string error

fun errorString :: "error \<Rightarrow> string" where
  "errorString (Error m) = m"
| "errorString (Wrap m e) = m @ '': '' @ errorString e"

text \<open>
  A dereference of a nil pointer panics; a function that can panic returns an \<open>outcome\<close>.
\<close>

datatype 'a outcome = Panic | Return 'a

text \<open>The fields of \<open>url.URL\<close> that the provider reads.\<close>

record url =
  Scheme :: string
  Host :: string
  Path :: string

text \<open>\<open>remote.Registry\<close>, by the host it was created for.\<close>

record registry =
  Reference :: string

text \<open>A repository of a registry, as \<open>registry.Repository\<close> hands it out.\<close>

record repository =
  repoRegistry :: string
  repoRepository :: string

text \<open>\<open>auth.Credential\<close>; \<open>auth.EmptyCredential\<close> is its zero value.\<close>

record credential =
  Username :: string
  Password :: string
  AccessToken :: string
  RefreshToken :: string

definition EmptyCredential :: credential where
  "EmptyCredential = \<lparr>Username = [], Password = [], AccessToken = [], RefreshToken = []\<rparr>"

text \<open>
  \<open>v1.Descriptor\<close> of the image specification: media type, digest and size (an
  \<open>int64\<close> that the provider never reads). \<open>v1.MediaTypeImageLayer\<close> is the media
  type of a layer, with the value the image specification gives it.
\<close>

record descriptor =
  MediaType :: string
  Digest :: string
  Size :: int

definition MediaTypeImageLayer :: string where
  "MediaTypeImageLayer = ''application/vnd.oci.image.layer.v1.tar''"

text \<open>The file store of one fetch, by its working directory.\<close>

record fileStore =
  workingDir :: string

text \<open>A content stream that the file store's \<open>Fetch\<close> opened, by its handle.\<close>

datatype stream = ContentStream nat

text \<open>
  \<open>struct orasProvider\<close>. The context is left out; \<open>url\<close> and \<open>registry\<close> are
  pointers, nil until \<open>Provider\<close> sets them.
\<close>

record orasProvider =
  serverCAPath :: string
  clientCertPath :: string
  clientKeyPath :: string
  username :: string
  password :: string
  accessToken :: string
  refreshToken :: string
  fileStoreBasePath :: string
  url :: "url option"
  registry :: "registry option"

text \<open>A \<open>ProviderOption\<close> is a function that changes the provider under construction.\<close>

type_synonym ProviderOption = "orasProvider \<Rightarrow> orasProvider"

text \<open>
  \<open>struct orasReadCloser\<close>, and the two dynamic types that the \<open>io.ReadCloser\<close>
  returned by \<open>Get\<close> can have: the stream of the file store as it is, or an
  \<open>*orasReadCloser\<close> around it.
\<close>

record orasReadCloser =
  fileStorePath :: string
  rc :: stream

datatype readCloser = StoreStream stream | OrasReadCloser orasReadCloser

section \<open>The world outside the provider\<close>

text \<open>
  The log is the sequence of entries handed to \<open>log.L()\<close>: level, message and the
  \<open>zap\<close> fields.
\<close>

datatype level = DebugLevel | ErrorLevel

record logEntry =
  entryLevel :: level
  entryMsg :: string
  entryFields :: "(string \<times> string) list"

text \<open>The calls into the operating system and the libraries, recorded as they happen.\<close>

datatype call =
    CallRepository string
  | CallMkdirTemp string string
  | CallFileNew string
  | CallCopy repository string string
  | CallSuccessors descriptor
  | CallFetch descriptor
  | CallStreamClose stream
  | CallRemoveAll string

text \<open>
  The world: the directories that exist, the log, and the calls made so far.
\<close>

record world =
  dirs :: "string list"
  logs :: "logEntry list"
  calls :: "call list"

text \<open>
  What the libraries and the operating system answer is not decided by this repository:
  it is a parameter of the model. The context of a call and its timeout are left out: a
  call that runs out of time is a call that fails. \<open>mkdirTempName\<close> proposes the name of the new
  directory from the base path, the pattern and the directories that exist;
  \<open>streamCloseResult\<close> is the answer of a stream to its \<open>n\<close>-th \<open>Close\<close> (counted
  from 0); \<open>removeAllResult\<close> is the error, if any, of the \<open>n\<close>-th removal of a
  tree, when the tree exists.
\<close>

record env =
  url_Parse :: "string \<Rightarrow> error + url"
  remote_NewRegistry :: "string \<Rightarrow> error + registry"
  registry_Repository :: "registry \<Rightarrow> string \<Rightarrow> error + repository"
  mkdirTempName :: "string \<Rightarrow> string \<Rightarrow> string list \<Rightarrow> error + string"
  file_New :: "string \<Rightarrow> error + fileStore"
  oras_Copy :: "repository \<Rightarrow> string \<Rightarrow> fileStore \<Rightarrow> string \<Rightarrow> error + descriptor"
  content_Successors :: "fileStore \<Rightarrow> descriptor \<Rightarrow> error + descriptor list"
  fileStore_Fetch :: "fileStore \<Rightarrow> descriptor \<Rightarrow> error + stream"
  streamCloseResult :: "stream \<Rightarrow> nat \<Rightarrow> error option"
  removeAllResult :: "string \<Rightarrow> nat \<Rightarrow> error option"

definition called :: "call \<Rightarrow> world \<Rightarrow> world" where
  "called c w = w\<lparr>calls := calls w @ [c]\<rparr>"

text \<open>\<open>log.L().Error(msg, fields...)\<close> and \<open>log.L().Debug(msg, fields...)\<close>.\<close>

definition logError :: "string \<Rightarrow> (string \<times> string) list \<Rightarrow> world \<Rightarrow> world" where
  "logError m fs w =
     w\<lparr>logs := logs w @ [\<lparr>entryLevel = ErrorLevel, entryMsg = m, entryFields = fs\<rparr>]\<rparr>"

definition logDebug :: "string \<Rightarrow> (string \<times> string) list \<Rightarrow> world \<Rightarrow> world" where
  "logDebug m fs w =
     w\<lparr>logs := logs w @ [\<lparr>entryLevel = DebugLevel, entryMsg = m, entryFields = fs\<rparr>]\<rparr>"

text \<open>\<open>zap.String(key, val)\<close> and \<open>zap.Error(err)\<close>.\<close>

definition zap_String :: "string \<Rightarrow> string \<Rightarrow> string \<times> string" where
  "zap_String k v = (k, v)"

definition zap_Error :: "error \<Rightarrow> string \<times> string" where
  "zap_Error err = (''error'', errorString err)"

text \<open>
  \<open>os.MkdirTemp(dir, pattern)\<close> creates a directory that did not exist and returns its
  path, or fails: a proposed name that exists is a failure.
\<close>

definition os_MkdirTemp :: "env \<Rightarrow> string \<Rightarrow> string \<Rightarrow> world \<Rightarrow> (error + string) \<times> world" where
  "os_MkdirTemp e dir pattern w =
     (let w' = called (CallMkdirTemp dir pattern) w in
      case mkdirTempName e dir pattern (dirs w) of
        Inl err \<Rightarrow> (Inl err, w')
      | Inr p \<Rightarrow>
          if p \<in> set (dirs w) then (Inl (Error ''file exists''), w')
          else (Inr p, w'\<lparr>dirs := dirs w @ [p]\<rparr>))"

text \<open>
  \<open>os.RemoveAll(path)\<close> removes \<open>path\<close> and what it contains; a path that does not exist
  is no error.
\<close>

definition inTree :: "string \<Rightarrow> string \<Rightarrow> bool" where
  "inTree path d = (d = path \<or> prefix (path @ ''/'') d)"

definition os_RemoveAll :: "env \<Rightarrow> string \<Rightarrow> world \<Rightarrow> error option \<times> world" where
  "os_RemoveAll e path w =
     (let w' = called (CallRemoveAll path) w in
      if list_ex (inTree path) (dirs w) then
        (case removeAllResult e path (count_list (calls w) (CallRemoveAll path)) of
           Some err \<Rightarrow> (Some err, w')
         | None \<Rightarrow> (None, w'\<lparr>dirs := filter (\<lambda>d. \<not> inTree path d) (dirs w)\<rparr>))
      else (None, w'))"

text \<open>The \<open>Close\<close> of a content stream: its answer depends on the closes before.\<close>

definition stream_Close :: "env \<Rightarrow> stream \<Rightarrow> world \<Rightarrow> error option \<times> world" where
  "stream_Close e s w =
     (streamCloseResult e s (count_list (calls w) (CallStreamClose s)),
      called (CallStreamClose s) w)"

text \<open>The other library calls of \<open>Get\<close>: the answer of the library, and the call recorded.\<close>

definition call_Repository :: "env \<Rightarrow> registry \<Rightarrow> string \<Rightarrow> world \<Rightarrow> (error + repository) \<times> world" where
  "call_Repository e reg name w = (registry_Repository e reg name, called (CallRepository name) w)"

definition call_file_New :: "env \<Rightarrow> string \<Rightarrow> world \<Rightarrow> (error + fileStore) \<times> world" where
  "call_file_New e p w = (file_New e p, called (CallFileNew p) w)"

definition call_oras_Copy ::
  "env \<Rightarrow> repository \<Rightarrow> string \<Rightarrow> fileStore \<Rightarrow> string \<Rightarrow> world \<Rightarrow> (error + descriptor) \<times> world" where
  "call_oras_Copy e src srcRef dst dstRef w =
     (oras_Copy e src srcRef dst dstRef, called (CallCopy src srcRef dstRef) w)"

definition call_Successors ::
  "env \<Rightarrow> fileStore \<Rightarrow> descriptor \<Rightarrow> world \<Rightarrow> (error + descriptor list) \<times> world" where
  "call_Successors e fs d w = (content_Successors e fs d, called (CallSuccessors d) w)"

definition call_Fetch :: "env \<Rightarrow> fileStore \<Rightarrow> descriptor \<Rightarrow> world \<Rightarrow> (error + stream) \<times> world" where
  "call_Fetch e fs d w = (fileStore_Fetch e fs d, called (CallFetch d) w)"

section \<open>The provider\<close>

text \<open>
  \<open>Provider\<close>, the constructor: the options are applied to the new provider, then the
  base path, the URL, its scheme and the registry client are checked in this order; each
  check that fails returns its error and no provider. The HTTP client that the
  constructor attaches to the registry has no part in its result and is left out but for
  its credential function, \<open>creds\<close> below.
\<close>

definition Provider ::
  "env \<Rightarrow> string \<Rightarrow> string \<Rightarrow> ProviderOption list \<Rightarrow> error + orasProvider" where
  "Provider e registryURL fileStoreBasePath' options =
     (let ret = fold (\<lambda>opt ret. opt ret) options
            \<lparr>serverCAPath = [], clientCertPath = [], clientKeyPath = [], username = [],
             password = [], accessToken = [], refreshToken = [],
             fileStoreBasePath = fileStoreBasePath', url = None, registry = None\<rparr>
      in
      if fileStoreBasePath' = [] then Inl (Error ''fileStoreBasePath must not be empty'')
      else
        case url_Parse e registryURL of
          Inl err \<Rightarrow> Inl (Wrap ''parsing registry URL'' err)
        | Inr u \<Rightarrow>
            if Scheme u \<noteq> ''oci'' then
              Inl (Error (''registry URL must have OCI scheme, got '' @ [CHR 0x27] @ Scheme u
                          @ [CHR 0x27]))
            else
              case remote_NewRegistry e (Host u) of
                Inl err \<Rightarrow> Inl (Wrap ''create ORAS client'' err)
              | Inr reg \<Rightarrow> Inr (ret\<lparr>url := Some u, registry := Some reg\<rparr>))"

text \<open>
  The closure \<open>creds\<close> of the constructor, over the provider \<open>ret\<close>: it returns a
  credential and a nil error. \<open>ret.url\<close> is read only once a credential field is set.
\<close>

definition creds :: "orasProvider \<Rightarrow> string \<Rightarrow> (credential \<times> error option) outcome" where
  "creds ret target =
     (if username ret \<noteq> [] \<or> password ret \<noteq> [] \<or> accessToken ret \<noteq> []
         \<or> refreshToken ret \<noteq> [] then
        (case url ret of
           None \<Rightarrow> Panic
         | Some u \<Rightarrow>
             if target = Host u then
               Return (\<lparr>Username = username ret, Password = password ret,
                        AccessToken = accessToken ret, RefreshToken = refreshToken ret\<rparr>, None)
             else Return (EmptyCredential, None))
      else Return (EmptyCredential, None))"

text \<open>
  \<open>Get\<close>, from the bottom up. The \<open>for\<close> loop over the nodes returns from \<open>Get\<close> at
  the first node with the media type of a layer, with an \<open>*orasReadCloser\<close> around
  the fetched stream or with nil when the fetch fails; \<open>None\<close> says that the loop ended
  without a return.
\<close>

fun scanNodes ::
  "env \<Rightarrow> fileStore \<Rightarrow> string \<Rightarrow> string \<Rightarrow> descriptor list \<Rightarrow> world
     \<Rightarrow> (readCloser option \<times> world) option" where
  "scanNodes e store name storePath [] w = None"
| "scanNodes e store name storePath (node # nodes) w =
     (if MediaType node = MediaTypeImageLayer then
        (case call_Fetch e store node w of
           (Inl err, w1) \<Rightarrow>
             Some (None, logError ''oras: fetch layer content failed''
                           [zap_String ''repo'' name, zap_Error err] w1)
         | (Inr ret, w1) \<Rightarrow>
             Some (Some (OrasReadCloser \<lparr>fileStorePath = storePath, rc = ret\<rparr>), w1))
      else scanNodes e store name storePath nodes w)"

text \<open>
  The end of \<open>Get\<close>, from \<^verbatim>\<open>if len(nodes) == 1\<close> on: a single node is fetched and its
  stream returned as it is; otherwise the loop, and after a loop without a return the
  artifact is not found.
\<close>

definition selectNode ::
  "env \<Rightarrow> fileStore \<Rightarrow> string \<Rightarrow> string \<Rightarrow> descriptor list \<Rightarrow> world
     \<Rightarrow> readCloser option \<times> world" where
  "selectNode e store name storePath nodes w =
     (if length nodes = 1 then
        (case call_Fetch e store (nodes ! 0) w of
           (Inl err, w1) \<Rightarrow>
             (None, logError ''oras: fetch layer content failed''
                      [zap_String ''repo'' name, zap_Error err] w1)
         | (Inr ret, w1) \<Rightarrow> (Some (StoreStream ret), w1))
      else
        (case scanNodes e store name storePath nodes w of
           Some r \<Rightarrow> r
         | None \<Rightarrow>
             (None, logError ''oras: no image layers in artifact'' [zap_String ''repo'' name] w)))"

text \<open>
  The body of \<open>Get\<close> after the \<open>defer\<close>: the file store, the copy of the tag
  \<open>latest\<close>, the successors of the root, and the choice of the node.
\<close>

definition tagName :: string where
  "tagName = ''latest''"

definition fetchArtifact ::
  "env \<Rightarrow> repository \<Rightarrow> string \<Rightarrow> string \<Rightarrow> world \<Rightarrow> readCloser option \<times> world" where
  "fetchArtifact e src name storePath w =
     (case call_file_New e storePath w of
        (Inl err, w1) \<Rightarrow>
          (None, logError ''oras: failed to create file store''
                   [zap_String ''repo'' name, zap_Error err] w1)
      | (Inr store, w1) \<Rightarrow>
          (case call_oras_Copy e src tagName store tagName w1 of
             (Inl err, w2) \<Rightarrow>
               (None, logError ''oras: copying artifact into memory failed''
                        [zap_String ''repo'' name, zap_Error err] w2)
           | (Inr rootDesc, w2) \<Rightarrow>
               (case call_Successors e store rootDesc w2 of
                  (Inl err, w3) \<Rightarrow>
                    (None, logError ''oras: fetching successors failed''
                             [zap_String ''repo'' name, zap_Error err] w3)
                | (Inr nodes, w3) \<Rightarrow> selectNode e store name storePath nodes w3)))"

text \<open>
  The deferred function of \<open>Get\<close>, run on the way out with the result \<open>rc\<close>: a nil
  result removes the directory of the file store; the error of the removal is dropped.
\<close>

definition deferredCleanup ::
  "env \<Rightarrow> string \<Rightarrow> readCloser option \<times> world \<Rightarrow> readCloser option \<times> world" where
  "deferredCleanup e storePath r =
     (case r of (result, w) \<Rightarrow>
        if result = None then
          (result,
           snd (os_RemoveAll e storePath
                  (logDebug ''oras: cleaning up temporary file store path''
                     [zap_String ''fileStorePath'' storePath] w)))
        else (result, w))"

text \<open>
  \<open>Get\<close>: the repository name, the repository, the temporary directory, and the body
  under the deferred cleanup. \<open>None\<close> is the nil \<open>io.ReadCloser\<close>.
\<close>

definition Get :: "env \<Rightarrow> orasProvider \<Rightarrow> string \<Rightarrow> world \<Rightarrow> (readCloser option \<times> world) outcome" where
  "Get e op artifact w =
     (case url op of
        None \<Rightarrow> Panic
      | Some u \<Rightarrow>
          let name = repoName (Path u) artifact in
          case registry op of
            None \<Rightarrow> Panic
          | Some reg \<Rightarrow>
              (case call_Repository e reg name w of
                 (Inl err, w1) \<Rightarrow>
                   Return (None, logError ''oras: getting repository reference failed''
                                   [zap_String ''repo'' name, zap_Error err] w1)
               | (Inr src, w1) \<Rightarrow>
                   (case os_MkdirTemp e (fileStoreBasePath op) ''oras-provider-file-store-*'' w1 of
                      (Inl err, w2) \<Rightarrow>
                        Return (None,
                          logError ''oras: failed to create temporary directory for file store''
                            [zap_String ''repo'' name, zap_Error err] w2)
                    | (Inr storePath, w2) \<Rightarrow>
                        Return (deferredCleanup e storePath
                                  (fetchArtifact e src name storePath w2)))))"

text \<open>
  \<open>orasReadCloser.Close\<close>: the stream is closed, the cleanup is announced in the log, the
  directory is removed and the error of the removal dropped; the error of the stream is
  returned.
\<close>

definition orasReadCloser_Close :: "env \<Rightarrow> orasReadCloser \<Rightarrow> world \<Rightarrow> error option \<times> world" where
  "orasReadCloser_Close e orc w =
     (case stream_Close e (rc orc) w of
        (err, w1) \<Rightarrow>
          (err,
           snd (os_RemoveAll e (fileStorePath orc)
                  (logDebug ''oras: ReadCloser: cleaning up temporary file store path on Close''
                     [zap_String ''fileStorePath'' (fileStorePath orc)] w1))))"

text \<open>\<open>Close\<close> on the \<open>io.ReadCloser\<close> that \<open>Get\<close> returned, by its dynamic type.\<close>

fun Close :: "env \<Rightarrow> readCloser \<Rightarrow> world \<Rightarrow> error option \<times> world" where
  "Close e (StoreStream s) w = stream_Close e s w"
| "Close e (OrasReadCloser orc) w = orasReadCloser_Close e orc w"

section \<open>Notions used in the statements and proofs\<close>

text \<open>
  The tests of the \<open>switch\<close> of \<open>path.Clean\<close> for a \<open>.\<close> and a \<open>..\<close> element, and what
  its last two cases do to the buffer, under names of their own.
\<close>

definition dotElem :: "char \<Rightarrow> string \<Rightarrow> bool" where
  "dotElem c cs = (c = dot \<and> (cs = [] \<or> hd cs = slash))"

definition dotdotElem :: "char \<Rightarrow> string \<Rightarrow> bool" where
  "dotdotElem c cs = (c = dot \<and> hd cs = dot \<and> (tl cs = [] \<or> hd (tl cs) = slash))"

definition dotdotStep :: "bool \<Rightarrow> string \<times> nat \<Rightarrow> string \<times> nat" where
  "dotdotStep rooted st =
     (case st of (out, dotdot) \<Rightarrow>
        if length out > dotdot then
          (take (backtrack dotdot out (length out - 1)) out, dotdot)
        else if \<not> rooted then
          (let out' = (if length out > 0 then out @ [slash] else out) @ [dot, dot]
           in (out', length out'))
        else (out, dotdot))"

definition elemStep :: "bool \<Rightarrow> string \<Rightarrow> string \<times> nat \<Rightarrow> string \<times> nat" where
  "elemStep rooted elem st =
     (case st of (out, dotdot) \<Rightarrow>
        ((if rooted \<and> length out \<noteq> 1 \<or> \<not> rooted \<and> length out \<noteq> 0
          then out @ [slash] else out) @ elem, dotdot))"

text \<open>
  In the cleaning of a relative path, a marker \<open>dotdot\<close> that has moved says that the
  buffer begins with a \<open>..\<close> element that is kept.
\<close>

definition keepsDotDot :: "string \<times> nat \<Rightarrow> bool" where
  "keepsDotDot st =
     (case st of (out, dotdot) \<Rightarrow>
        0 < dotdot \<longrightarrow> 2 \<le> dotdot \<and> dotdot \<le> length out \<and> takeWhile noSlash out = [dot, dot])"

text \<open>
  In the cleaning of a rooted path the buffer is the root, followed by elements none of
  which is empty, and the first of which is neither \<open>.\<close> nor \<open>..\<close>.
\<close>

definition rootedElems :: "string \<times> nat \<Rightarrow> bool" where
  "rootedElems st =
     (case st of (out, dotdot) \<Rightarrow>
        dotdot = 1 \<and> out \<noteq> [] \<and> hd out = slash \<and>
        (tl out = [] \<or> hd (tl out) \<noteq> slash) \<and>
        takeWhile noSlash (tl out) \<noteq> [dot] \<and> takeWhile noSlash (tl out) \<noteq> [dot, dot])"

text \<open>
  The world in which \<open>Get\<close> chooses the node: the directory \<open>storePath\<close> exists, and
  the repository, the directory, the file store, the copy and the successors have been
  asked for, in this order.
\<close>

definition copied ::
  "string \<Rightarrow> string \<Rightarrow> string \<Rightarrow> repository \<Rightarrow> descriptor \<Rightarrow> world \<Rightarrow> world" where
  "copied name base storePath src rootDesc w =
     w\<lparr>dirs := dirs w @ [storePath],
       calls := calls w @
         [CallRepository name, CallMkdirTemp base ''oras-provider-file-store-*'',
          CallFileNew storePath, CallCopy src tagName tagName, CallSuccessors rootDesc]\<rparr>"

text \<open>How often the removal of the tree at \<open>p\<close> has been asked for.\<close>

definition removals :: "string \<Rightarrow> world \<Rightarrow> nat" where
  "removals p w = count_list (calls w) (CallRemoveAll p)"

section \<open>An example world\<close>

text \<open>
  Concrete answers of the libraries, for the closed theorems below. \<open>url.Parse\<close> on
  three registry URLs: one with a path prefix, one whose host is an IPv6 literal with a
  zone (the parsed host holds the zone unescaped, \<open>%en0\<close>), one with another scheme;
  on \<open>":"\<close>, which has no scheme and does not parse; any other string stands for one
  without scheme and host, which parses as a path. \<open>remote.NewRegistry\<close> validates the
  host by parsing it again as the host of a URL, which fails on the bare \<open>%\<close> of the
  zone.
\<close>

definition exampleParse :: "string \<Rightarrow> error + url" where
  "exampleParse s =
     (if s = ''oci://registry.local:5000/images'' then
        Inr \<lparr>Scheme = ''oci'', Host = ''registry.local:5000'', Path = ''/images''\<rparr>
      else if s = ''oci://[fe80::1%25en0]/images'' then
        Inr \<lparr>Scheme = ''oci'', Host = ''[fe80::1%en0]'', Path = ''/images''\<rparr>
      else if s = ''https://registry.local/images'' then
        Inr \<lparr>Scheme = ''https'', Host = ''registry.local'', Path = ''/images''\<rparr>
      else if s = '':'' then Inl (Error ''missing protocol scheme'')
      else Inr \<lparr>Scheme = [], Host = [], Path = s\<rparr>)"

definition exampleNewRegistry :: "string \<Rightarrow> error + registry" where
  "exampleNewRegistry h =
     (if h = ''[fe80::1%en0]'' then Inl (Error ''invalid reference: invalid registry'')
      else Inr \<lparr>Reference = h\<rparr>)"

text \<open>
  The registry of the example refuses the empty repository name and a name that starts
  with a dot; the copy gives the root \<open>exampleRoot\<close>, whose successors are the parameter
  \<open>nodes\<close>; every fetch opens the stream 3; a stream answers its first \<open>Close\<close> with
  nil and a later one with an error, as a file does; directories can be removed.
\<close>

definition exampleRoot :: descriptor where
  "exampleRoot =
     \<lparr>MediaType = ''application/vnd.oci.image.manifest.v1+json'', Digest = ''sha256:00'',
      Size = 412\<rparr>"

definition exampleEnv :: "descriptor list \<Rightarrow> env" where
  "exampleEnv nodes =
     \<lparr>url_Parse = exampleParse,
      remote_NewRegistry = exampleNewRegistry,
      registry_Repository = (\<lambda>reg name.
        if name = [] \<or> hd name = dot then Inl (Error ''invalid reference: invalid repository'')
        else Inr \<lparr>repoRegistry = Reference reg, repoRepository = name\<rparr>),
      mkdirTempName = (\<lambda>dir pattern existing. Inr (dir @ ''/oras-provider-file-store-1'')),
      file_New = (\<lambda>p. Inr \<lparr>workingDir = p\<rparr>),
      oras_Copy = (\<lambda>src srcRef dst dstRef. Inr exampleRoot),
      content_Successors = (\<lambda>store d. Inr nodes),
      fileStore_Fetch = (\<lambda>store d. Inr (ContentStream 3)),
      streamCloseResult = (\<lambda>s n. if n = 0 then None else Some (Error ''file already closed'')),
      removeAllResult = (\<lambda>p n. None)\<rparr>"

text \<open>The same world, where the removal of a directory fails.\<close>

definition stuckEnv :: "descriptor list \<Rightarrow> env" where
  "stuckEnv nodes = (exampleEnv nodes)\<lparr>removeAllResult := (\<lambda>p n. Some (Error ''permission denied''))\<rparr>"

text \<open>The same world, where the first removal of a directory fails and a later one succeeds.\<close>

definition retryEnv :: "descriptor list \<Rightarrow> env" where
  "retryEnv nodes =
     (exampleEnv nodes)\<lparr>removeAllResult :=
        (\<lambda>p n. if n = 0 then Some (Error ''device or resource busy'') else None)\<rparr>"

text \<open>A provider with credentials, as \<open>Provider\<close> builds it, and the empty world.\<close>

definition withCredentials :: ProviderOption where
  "withCredentials ret = ret\<lparr>username := ''seeder'', password := ''secret''\<rparr>"

definition exampleProvider :: orasProvider where
  "exampleProvider =
     \<lparr>serverCAPath = [], clientCertPath = [], clientKeyPath = [], username = ''seeder'',
      password = ''secret'', accessToken = [], refreshToken = [],
      fileStoreBasePath = ''/var/lib/seeder'',
      url = Some \<lparr>Scheme = ''oci'', Host = ''registry.local:5000'', Path = ''/images''\<rparr>,
      registry = Some \<lparr>Reference = ''registry.local:5000''\<rparr>\<rparr>"

definition emptyWorld :: world where
  "emptyWorld = \<lparr>dirs = [], logs = [], calls = []\<rparr>"

text \<open>Three successors: a manifest, a layer and a configuration.\<close>

definition manifestNode :: descriptor where
  "manifestNode =
     \<lparr>MediaType = ''application/vnd.oci.image.manifest.v1+json'', Digest = ''sha256:01'',
      Size = 7\<rparr>"

definition layerNode :: descriptor where
  "layerNode = \<lparr>MediaType = ''application/vnd.oci.image.layer.v1.tar'', Digest = ''sha256:02'', Size = 9\<rparr>"

definition configNode :: descriptor where
  "configNode =
     \<lparr>MediaType = ''application/vnd.oci.image.config.v1+json'', Digest = ''sha256:03'', Size = 2\<rparr>"

section \<open>Cleaning a path\<close>

text \<open>The loop of \<open>path.Clean\<close>, one step at a time.\<close>

lemma cleanLoop_Nil: "cleanLoop rooted [] st = st"
  by (cases st) (simp add: cleanLoop.simps(1))

lemma cleanLoop_Cons:
  "cleanLoop rooted (c # cs) st =
     (if c = slash then cleanLoop rooted cs st
      else if dotElem c cs then cleanLoop rooted cs st
      else if dotdotElem c cs then cleanLoop rooted (tl cs) (dotdotStep rooted st)
      else cleanLoop rooted (dropWhile noSlash (c # cs))
             (elemStep rooted (takeWhile noSlash (c # cs)) st))"
  by (cases st) (simp only: cleanLoop.simps(2) dotElem_def dotdotElem_def dotdotStep_def
      elemStep_def prod.case)

text \<open>
  A separator after a prefix \<open>p\<close> of the path is an element boundary: the loop reaches it
  in the state that it has after \<open>p\<close> alone, whatever follows.
\<close>

lemma dotElem_append: "dotElem c (cs @ slash # y) = dotElem c cs"
  by (cases cs) (auto simp: dotElem_def)

lemma dotdotElem_append:
  "\<not> dotElem c cs \<Longrightarrow> dotdotElem c (cs @ slash # y) = dotdotElem c cs"
  by (cases cs; cases "tl cs") (auto simp: dotElem_def dotdotElem_def)

lemma takeWhile_elem_append:
  "takeWhile noSlash (p @ slash # y) = takeWhile noSlash p"
  by (induction p) auto

lemma dropWhile_elem_append:
  "dropWhile noSlash (p @ slash # y) = dropWhile noSlash p @ slash # y"
  by (induction p) auto

lemma cleanLoop_split:
  "cleanLoop rooted (p @ slash # y) st = cleanLoop rooted (slash # y) (cleanLoop rooted p st)"
proof (induction rooted p st rule: cleanLoop.induct)
  case (1 rooted out dotdot)
  show ?case by (simp add: cleanLoop_Nil)
next
  case (2 rooted c cs out dotdot)
  let ?st = "(out, dotdot)"
  have unf: "cleanLoop rooted ((c # cs) @ slash # y) ?st =
     (if c = slash then cleanLoop rooted (cs @ slash # y) ?st
      else if dotElem c cs then cleanLoop rooted (cs @ slash # y) ?st
      else if dotdotElem c (cs @ slash # y) then cleanLoop rooted (tl (cs @ slash # y)) (dotdotStep rooted ?st)
      else cleanLoop rooted (dropWhile noSlash (c # cs) @ slash # y)
             (elemStep rooted (takeWhile noSlash (c # cs)) ?st))"
    unfolding append_Cons
    by (subst cleanLoop_Cons)
      (simp only: dotElem_append
        takeWhile_elem_append [of "c # cs" y, unfolded append_Cons]
        dropWhile_elem_append [of "c # cs" y, unfolded append_Cons])
  have rhs: "cleanLoop rooted (c # cs) ?st =
     (if c = slash then cleanLoop rooted cs ?st
      else if dotElem c cs then cleanLoop rooted cs ?st
      else if dotdotElem c cs then cleanLoop rooted (tl cs) (dotdotStep rooted ?st)
      else cleanLoop rooted (dropWhile noSlash (c # cs))
             (elemStep rooted (takeWhile noSlash (c # cs)) ?st))"
    by (rule cleanLoop_Cons)
  show ?case
  proof (cases "c = slash")
    case True
    with 2(1) show ?thesis unfolding unf rhs by simp
  next
    case ns: False
    show ?thesis
    proof (cases "dotElem c cs")
      case True
      with ns 2(2) show ?thesis
        unfolding unf rhs by (simp add: dotElem_def)
    next
      case nd: False
      then have nd0: "\<not> (c = dot \<and> (cs = [] \<or> hd cs = slash))" by (simp add: dotElem_def)
      show ?thesis
      proof (cases "dotdotElem c cs")
        case True
        then have dd0: "c = dot \<and> hd cs = dot \<and> (tl cs = [] \<or> hd (tl cs) = slash)"
          by (simp add: dotdotElem_def)
        from True nd have cs: "cs \<noteq> []" by (auto simp: dotElem_def dotdotElem_def)
        have "cleanLoop rooted ((c # cs) @ slash # y) ?st =
           cleanLoop rooted (tl cs @ slash # y) (dotdotStep rooted ?st)"
          using unf ns nd True cs by (simp add: dotdotElem_append)
        also have "\<dots> = cleanLoop rooted (slash # y) (cleanLoop rooted (tl cs) (dotdotStep rooted ?st))"
          using 2(3) [OF ns nd0 dd0] by (simp add: dotdotStep_def Let_def split: if_splits)
        also have "\<dots> = cleanLoop rooted (slash # y) (cleanLoop rooted (c # cs) ?st)"
          unfolding rhs using ns nd True by simp
        finally show ?thesis .
      next
        case ndd: False
        then have ndd0: "\<not> (c = dot \<and> hd cs = dot \<and> (tl cs = [] \<or> hd (tl cs) = slash))"
          by (simp add: dotdotElem_def)
        have "cleanLoop rooted ((c # cs) @ slash # y) ?st =
           cleanLoop rooted (dropWhile noSlash (c # cs) @ slash # y)
             (elemStep rooted (takeWhile noSlash (c # cs)) ?st)"
          using unf ns nd ndd by (simp add: dotdotElem_append)
        also have "\<dots> = cleanLoop rooted (slash # y) (cleanLoop rooted (dropWhile noSlash (c # cs))
             (elemStep rooted (takeWhile noSlash (c # cs)) ?st))"
          using 2(4) [OF ns nd0 ndd0] by (simp add: elemStep_def)
        also have "\<dots> = cleanLoop rooted (slash # y) (cleanLoop rooted (c # cs) ?st)"
          unfolding rhs using ns nd ndd by simp
        finally show ?thesis .
      qed
    qed
  qed
qed

lemma Join_two:
  "Join [p, a] = (if p = [] then (if a = [] then [] else Clean a) else Clean (p @ slash # a))"
  by (simp add: Join_def)

lemma Clean_double_slash:
  assumes "p \<noteq> []"
  shows "Clean (p @ slash # slash # a) = Clean (p @ slash # a)"
proof -
  have loop: "cleanLoop rooted (q @ slash # slash # a) st = cleanLoop rooted (q @ slash # a) st"
    for rooted q st
    by (simp add: cleanLoop_split [of rooted q] cleanLoop_Cons [of rooted slash])
  from assms have tl: "tl (p @ y) = tl p @ y" for y by simp
  from assms show ?thesis
    by (simp add: Clean_def Let_def tl loop del: tl_append2)
qed

text \<open>
  A rooted path and the same path without its root are cleaned in step, the buffer of
  the first being the separator before the buffer of the second, as long as the
  relative path keeps no \<open>..\<close> element.
\<close>

lemma backtrack_ge: "dotdot \<le> w \<Longrightarrow> dotdot \<le> backtrack dotdot out w"
  by (induction dotdot out w rule: backtrack.induct) (subst backtrack.simps, auto)

lemma backtrack_rooted:
  "backtrack (Suc dotdot) (slash # out) (Suc w) = Suc (backtrack dotdot out w)"
proof (induction dotdot out w rule: backtrack.induct)
  case (1 dotdot out w)
  show ?case
  proof (cases "w > dotdot \<and> out ! w \<noteq> slash")
    case True
    then obtain w' where w: "w = Suc w'" by (cases w) auto
    from True 1 w show ?thesis
      by (subst backtrack.simps, subst (2) backtrack.simps) simp
  next
    case False
    then show ?thesis
      by (subst backtrack.simps, subst (2) backtrack.simps) auto
  qed
qed

lemma dotdot_positive:
  "0 < dotdot \<Longrightarrow> 0 < snd (cleanLoop rooted p (out, dotdot))"
proof (induction rooted p "(out, dotdot)" arbitrary: out dotdot rule: cleanLoop.induct)
  case (1 rooted out dotdot)
  then show ?case by (simp add: cleanLoop_Nil)
next
  case (2 rooted c cs out dotdot)
  show ?case
    unfolding cleanLoop.simps(2) [of rooted c cs out dotdot]
    using 2 by (auto simp: Let_def)
qed

lemma cleanLoop_rooted_sim_aux:
  "\<not> rooted \<Longrightarrow> snd st = 0 \<Longrightarrow> snd (cleanLoop rooted p st) = 0 \<Longrightarrow>
   cleanLoop True p (slash # fst st, Suc 0) = (slash # fst (cleanLoop rooted p st), Suc 0)"
proof (induction rooted p st rule: cleanLoop.induct)
  case (1 rooted out dotdot)
  show ?case by (simp add: cleanLoop_Nil)
next
  case (2 rooted c cs out dotdot)
  from 2(5,6) have r: "rooted = False" and d: "dotdot = 0" by simp_all
  let ?st = "(out, 0::nat)" and ?st' = "(slash # out, Suc 0)"
  have L: "cleanLoop False (c # cs) ?st =
     (if c = slash then cleanLoop False cs ?st
      else if dotElem c cs then cleanLoop False cs ?st
      else if dotdotElem c cs then cleanLoop False (tl cs) (dotdotStep False ?st)
      else cleanLoop False (dropWhile noSlash (c # cs))
             (elemStep False (takeWhile noSlash (c # cs)) ?st))"
    by (rule cleanLoop_Cons)
  have R: "cleanLoop True (c # cs) ?st' =
     (if c = slash then cleanLoop True cs ?st'
      else if dotElem c cs then cleanLoop True cs ?st'
      else if dotdotElem c cs then cleanLoop True (tl cs) (dotdotStep True ?st')
      else cleanLoop True (dropWhile noSlash (c # cs))
             (elemStep True (takeWhile noSlash (c # cs)) ?st'))"
    by (rule cleanLoop_Cons)
  note fin0 = 2(7) [unfolded r d]
  show ?case
    unfolding r d fst_conv
  proof (cases "c = slash")
    case True
    with 2(1) [unfolded r d] fin0 show "cleanLoop True (c # cs) ?st' = (slash # fst (cleanLoop False (c # cs) ?st), Suc 0)"
      unfolding L R by simp
  next
    case ns: False
    show "cleanLoop True (c # cs) ?st' = (slash # fst (cleanLoop False (c # cs) ?st), Suc 0)"
    proof (cases "dotElem c cs")
      case True
      with ns 2(2) [unfolded r d] fin0 show ?thesis unfolding L R by (simp add: dotElem_def)
    next
      case nd: False
      then have nd0: "\<not> (c = dot \<and> (cs = [] \<or> hd cs = slash))" by (simp add: dotElem_def)
      show ?thesis
      proof (cases "dotdotElem c cs")
        case True
        then have dd0: "c = dot \<and> hd cs = dot \<and> (tl cs = [] \<or> hd (tl cs) = slash)"
          by (simp add: dotdotElem_def)
        have fin: "snd (cleanLoop False (tl cs) (dotdotStep False ?st)) = 0"
          using fin0 ns nd True unfolding L by simp
        have out: "out \<noteq> []"
        proof
          assume "out = []"
          then have "dotdotStep False ?st = ([dot, dot], 2)"
            by (simp add: dotdotStep_def)
          with fin dotdot_positive [of 2 False "tl cs" "[dot, dot]"] show False by simp
        qed
        then have stepL: "dotdotStep False ?st = (take (backtrack 0 out (length out - 1)) out, 0)"
          by (simp add: dotdotStep_def)
        from out obtain n where n: "length out = Suc n" by (cases out) auto
        have stepR: "dotdotStep True ?st' =
            (slash # take (backtrack 0 out (length out - 1)) out, Suc 0)"
          using out n by (simp add: dotdotStep_def backtrack_rooted)
        have "cleanLoop True (tl cs) (slash # take (backtrack 0 out (length out - 1)) out, Suc 0) =
            (slash # fst (cleanLoop False (tl cs) (take (backtrack 0 out (length out - 1)) out, 0)), Suc 0)"
          using 2(3) [OF ns nd0 dd0] out fin stepL unfolding r d
          by simp
        then show ?thesis
          unfolding L R using ns nd True stepL stepR by simp
      next
        case ndd: False
        then have ndd0: "\<not> (c = dot \<and> hd cs = dot \<and> (tl cs = [] \<or> hd (tl cs) = slash))"
          by (simp add: dotdotElem_def)
        let ?e = "takeWhile noSlash (c # cs)"
        let ?o = "(if out \<noteq> [] then out @ [slash] else out) @ ?e"
        have stepL: "elemStep False ?e ?st = (?o, 0)"
          by (simp add: elemStep_def)
        have stepR: "elemStep True ?e ?st' = (slash # ?o, Suc 0)"
          by (simp add: elemStep_def)
        have fin: "snd (cleanLoop False (dropWhile noSlash (c # cs)) (?o, 0)) = 0"
          using fin0 ns nd ndd stepL unfolding L by simp
        have "cleanLoop True (dropWhile noSlash (c # cs)) (slash # ?o, Suc 0) =
            (slash # fst (cleanLoop False (dropWhile noSlash (c # cs)) (?o, 0)), Suc 0)"
          using 2(4) [OF ns nd0 ndd0] fin unfolding r d by simp
        then show ?thesis
          unfolding L R using ns nd ndd stepL stepR by simp
      qed
    qed
  qed
qed

lemma cleanLoop_rooted_sim:
  assumes "snd (cleanLoop False p ([], 0)) = 0"
  shows "cleanLoop True p ([slash], Suc 0) = (slash # fst (cleanLoop False p ([], 0)), Suc 0)"
  using cleanLoop_rooted_sim_aux [of False "([], 0)" p] assms by simp

text \<open>A marker that has moved stays behind a leading \<open>..\<close> element of the buffer.\<close>

lemma takeWhile_take_dotdot:
  assumes "takeWhile noSlash out = [dot, dot]" and "2 \<le> w"
  shows "takeWhile noSlash (take w out) = [dot, dot]"
proof -
  from assms(1) have "out = [dot, dot] @ dropWhile noSlash out"
    using takeWhile_dropWhile_id [of noSlash out] by simp
  then obtain r where out: "out = dot # dot # r" and r: "r = dropWhile noSlash out" by simp
  from assms(1) out have r': "r = [] \<or> hd r = slash"
    by (cases r) (auto split: if_splits)
  from assms(2) obtain k where k: "w = Suc (Suc k)" by (metis add_2_eq_Suc le_Suc_ex)
  from r' show ?thesis unfolding out k by (cases r; cases k) auto
qed

lemma keepsDotDot_dotdotStep:
  assumes "keepsDotDot st"
  shows "keepsDotDot (dotdotStep False st)"
proof (cases st)
  case (Pair out dotdot)
  show ?thesis
  proof (cases "length out > dotdot")
    case True
    let ?w = "backtrack dotdot out (length out - 1)"
    from True have ge: "dotdot \<le> ?w" by (intro backtrack_ge) simp
    have "keepsDotDot (take ?w out, dotdot)"
      using assms Pair True ge
      by (auto simp: keepsDotDot_def takeWhile_take_dotdot)
    with True Pair show ?thesis by (simp add: dotdotStep_def)
  next
    case False
    show ?thesis
    proof (cases "dotdot = 0")
      case True
      with False Pair show ?thesis by (simp add: dotdotStep_def keepsDotDot_def)
    next
      case nz: False
      with assms Pair False have "length out = dotdot" and "takeWhile noSlash out = [dot, dot]"
        and "out \<noteq> []"
        by (auto simp: keepsDotDot_def)
      with nz False Pair show ?thesis
        by (simp add: dotdotStep_def keepsDotDot_def Let_def takeWhile_elem_append)
    qed
  qed
qed

lemma keepsDotDot_zero: "keepsDotDot (out, 0)"
  by (simp add: keepsDotDot_def)

lemma keepsDotDot_elemStep:
  assumes "keepsDotDot st"
  shows "keepsDotDot (elemStep False e st)"
proof (cases st)
  case (Pair out dotdot)
  show ?thesis
  proof (cases "dotdot = 0")
    case True
    with Pair show ?thesis by (simp add: elemStep_def keepsDotDot_def)
  next
    case False
    with assms Pair have "out \<noteq> []" and "2 \<le> dotdot" "dotdot \<le> length out"
      and "takeWhile noSlash out = [dot, dot]"
      by (auto simp: keepsDotDot_def)
    with Pair show ?thesis
      by (simp add: elemStep_def keepsDotDot_def takeWhile_elem_append)
  qed
qed

lemma keepsDotDot_cleanLoop:
  "\<not> rooted \<Longrightarrow> keepsDotDot st \<Longrightarrow> keepsDotDot (cleanLoop rooted p st)"
proof (induction rooted p st rule: cleanLoop.induct)
  case (1 rooted out dotdot)
  then show ?case by (simp add: cleanLoop_Nil)
next
  case (2 rooted c cs out dotdot)
  from 2(5) have r: "rooted = False" by simp
  note IH = 2(1-4) [unfolded r] and inv = 2(6)
  let ?st = "(out, dotdot)"
  have L: "cleanLoop False (c # cs) ?st =
     (if c = slash then cleanLoop False cs ?st
      else if dotElem c cs then cleanLoop False cs ?st
      else if dotdotElem c cs then cleanLoop False (tl cs) (dotdotStep False ?st)
      else cleanLoop False (dropWhile noSlash (c # cs))
             (elemStep False (takeWhile noSlash (c # cs)) ?st))"
    by (rule cleanLoop_Cons)
  have dd: "keepsDotDot (dotdotStep False ?st)"
    using inv by (rule keepsDotDot_dotdotStep)
  have el: "keepsDotDot (elemStep False (takeWhile noSlash (c # cs)) ?st)"
    using inv by (rule keepsDotDot_elemStep)
  show ?case
    unfolding r L
    using IH inv dd el
    by (auto simp: dotElem_def dotdotElem_def dotdotStep_def elemStep_def)
qed

lemma Clean_relative_marker:
  assumes "a \<noteq> []" and "hd a \<noteq> slash"
    and "takeWhile noSlash (Clean a) \<noteq> [dot, dot]"
  shows "snd (cleanLoop False a ([], 0)) = 0"
proof (rule ccontr)
  assume nz: "snd (cleanLoop False a ([], 0)) \<noteq> 0"
  obtain out dotdot where st: "cleanLoop False a ([], 0) = (out, dotdot)"
    by (cases "cleanLoop False a ([], 0)")
  have "keepsDotDot (cleanLoop False a ([], 0))"
    by (rule keepsDotDot_cleanLoop) (simp_all add: keepsDotDot_zero)
  with st nz have "takeWhile noSlash out = [dot, dot]" and "out \<noteq> []"
    by (auto simp: keepsDotDot_def)
  with assms st show False by (simp add: Clean_def)
qed

lemma Clean_slash_relative:
  assumes "a \<noteq> []" and "hd a \<noteq> slash"
    and "Clean a \<noteq> [dot]" and "takeWhile noSlash (Clean a) \<noteq> [dot, dot]"
  shows "Clean (slash # a) = slash # Clean a"
proof -
  have z: "snd (cleanLoop False a ([], 0)) = 0"
    using assms(1,2,4) by (rule Clean_relative_marker)
  obtain out dotdot where st: "cleanLoop False a ([], 0) = (out, dotdot)"
    by (cases "cleanLoop False a ([], 0)")
  from assms(1,2,3) st have out: "out \<noteq> []" and c: "Clean a = out"
    by (auto simp: Clean_def split: if_splits)
  from cleanLoop_rooted_sim [OF z] st
  have "cleanLoop True a ([slash], Suc 0) = (slash # out, Suc 0)" by simp
  then show ?thesis using c by (simp add: Clean_def)
qed

lemma Clean_slash_rooted:
  assumes "a \<noteq> []" and "hd a = slash"
  shows "Clean (slash # a) = Clean a"
proof -
  from assms obtain b where a: "a = slash # b" by (cases a) auto
  show ?thesis unfolding a by (simp add: Clean_def cleanLoop_Cons [of True slash])
qed

lemma Clean_root: "Clean [slash] = [slash]"
  by (simp add: Clean_def cleanLoop_Nil)

text \<open>
  The cleaning of a rooted path keeps no \<open>.\<close> and no \<open>..\<close> as its first element, so
  the repository name of a rooted artifact name never begins with one.
\<close>

lemma backtrack_stops:
  "dotdot \<le> w \<Longrightarrow> backtrack dotdot out w = dotdot \<or> out ! backtrack dotdot out w = slash"
  by (induction dotdot out w rule: backtrack.induct) (subst (1 2) backtrack.simps, auto)

lemma backtrack_le: "backtrack dotdot out w \<le> w"
proof (induction dotdot out w rule: backtrack.induct)
  case (1 dotdot out w)
  have eq: "backtrack dotdot out w =
      (if w > dotdot \<and> out ! w \<noteq> slash then backtrack dotdot out (w - 1) else w)"
    by (rule backtrack.simps)
  show ?case
  proof (cases "w > dotdot \<and> out ! w \<noteq> slash")
    case True
    with 1 have "backtrack dotdot out (w - 1) \<le> w - 1" by simp
    then have "backtrack dotdot out (w - 1) \<le> w" by simp
    with True eq show ?thesis by simp
  next
    case False
    with eq show ?thesis by simp
  qed
qed

lemma takeWhile_take_at_slash:
  "k < length xs \<Longrightarrow> xs ! k = slash \<Longrightarrow> takeWhile noSlash (take k xs) = takeWhile noSlash xs"
proof (induction xs arbitrary: k)
  case Nil
  then show ?case by simp
next
  case (Cons x xs)
  then show ?case by (cases k) auto
qed

lemma real_elem_not_dots:
  assumes "c \<noteq> slash" and "\<not> dotElem c cs" and "\<not> dotdotElem c cs"
  shows "takeWhile noSlash (c # cs) \<noteq> [dot] \<and> takeWhile noSlash (c # cs) \<noteq> [dot, dot]"
proof -
  have a: "takeWhile noSlash xs = [] \<longleftrightarrow> xs = [] \<or> hd xs = slash" for xs
    by (cases xs) auto
  have "takeWhile noSlash (c # cs) \<noteq> [dot]"
    using assms(1,2) a [of cs] by (auto simp: dotElem_def)
  moreover have "takeWhile noSlash (c # cs) \<noteq> [dot, dot]"
  proof
    assume h: "takeWhile noSlash (c # cs) = [dot, dot]"
    with assms(1) have c: "c = dot" and t: "takeWhile noSlash cs = [dot]" by auto
    from t obtain cs' where cs: "cs = dot # cs'" by (cases cs) (auto split: if_splits)
    with t have "takeWhile noSlash cs' = []" by simp
    with a [of cs'] have "cs' = [] \<or> hd cs' = slash" by simp
    with c cs assms(3) show False by (auto simp: dotdotElem_def)
  qed
  ultimately show ?thesis by simp
qed

lemma rootedElems_dotdotStep:
  assumes "rootedElems st"
  shows "rootedElems (dotdotStep True st)"
proof (cases st)
  case (Pair out dotdot)
  with assms have d: "dotdot = 1" and ne: "out \<noteq> []" and hd: "hd out = slash"
    and r: "tl out = [] \<or> hd (tl out) \<noteq> slash"
    and e: "takeWhile noSlash (tl out) \<noteq> [dot]" "takeWhile noSlash (tl out) \<noteq> [dot, dot]"
    by (auto simp: rootedElems_def)
  show ?thesis
  proof (cases "length out > 1")
    case False
    with Pair d assms show ?thesis by (simp add: dotdotStep_def)
  next
    case True
    let ?w = "backtrack 1 out (length out - 1)"
    from True have ge: "1 \<le> ?w" by (intro backtrack_ge) simp
    have le: "?w \<le> length out - 1" by (rule backtrack_le)
    from True have "?w = 1 \<or> out ! ?w = slash" by (intro backtrack_stops) simp
    then have "rootedElems (take ?w out, 1)"
    proof
      assume "?w = 1"
      with ne hd show ?thesis
        by (cases out) (auto simp: rootedElems_def)
    next
      assume s: "out ! ?w = slash"
      from ge obtain k where k: "?w = Suc k" by (cases ?w) auto
      from ne obtain x rest where out: "out = x # rest" by (cases out) auto
      from s k out have rk: "rest ! k = slash" by simp
      from le k out True have kl: "k < length rest" by simp
      have tw: "takeWhile noSlash (take k rest) = takeWhile noSlash rest"
        using kl rk by (rule takeWhile_take_at_slash)
      from r out have r': "rest = [] \<or> hd rest \<noteq> slash" by simp
      have "take k rest = [] \<or> hd (take k rest) \<noteq> slash"
        using r' by (cases rest; cases k) auto
      with hd e out tw show ?thesis
        unfolding k by (simp add: rootedElems_def)
    qed
    with True Pair d show ?thesis by (simp add: dotdotStep_def)
  qed
qed

lemma rootedElems_elemStep:
  assumes "rootedElems st" and "c \<noteq> slash" and "\<not> dotElem c cs" and "\<not> dotdotElem c cs"
  shows "rootedElems (elemStep True (takeWhile noSlash (c # cs)) st)"
proof (cases st)
  case (Pair out dotdot)
  with assms(1) have d: "dotdot = 1" and ne: "out \<noteq> []" and hd: "hd out = slash"
    and r: "tl out = [] \<or> hd (tl out) \<noteq> slash"
    and e: "takeWhile noSlash (tl out) \<noteq> [dot]" "takeWhile noSlash (tl out) \<noteq> [dot, dot]"
    by (auto simp: rootedElems_def)
  note el = real_elem_not_dots [OF assms(2-4)]
  from ne obtain x rest where out: "out = x # rest" by (cases out) auto
  show ?thesis
  proof (cases "length out = 1")
    case True
    with out have "rest = []" by simp
    with Pair d out hd el assms(2) show ?thesis
      by (simp add: elemStep_def rootedElems_def)
  next
    case False
    with out have rest: "rest \<noteq> []" by simp
    have "takeWhile noSlash (rest @ slash # takeWhile noSlash (c # cs)) = takeWhile noSlash rest"
      by (rule takeWhile_elem_append)
    with False Pair d out hd r e rest show ?thesis
      by (simp add: elemStep_def rootedElems_def)
  qed
qed

lemma rootedElems_cleanLoop:
  "rooted \<Longrightarrow> rootedElems st \<Longrightarrow> rootedElems (cleanLoop rooted p st)"
proof (induction rooted p st rule: cleanLoop.induct)
  case (1 rooted out dotdot)
  then show ?case by (simp add: cleanLoop_Nil)
next
  case (2 rooted c cs out dotdot)
  from 2(5) have r: "rooted = True" by simp
  note IH = 2(1-4) [unfolded r] and inv = 2(6)
  let ?st = "(out, dotdot)"
  have L: "cleanLoop True (c # cs) ?st =
     (if c = slash then cleanLoop True cs ?st
      else if dotElem c cs then cleanLoop True cs ?st
      else if dotdotElem c cs then cleanLoop True (tl cs) (dotdotStep True ?st)
      else cleanLoop True (dropWhile noSlash (c # cs))
             (elemStep True (takeWhile noSlash (c # cs)) ?st))"
    by (rule cleanLoop_Cons)
  have dd: "rootedElems (dotdotStep True ?st)"
    using inv by (rule rootedElems_dotdotStep)
  have el: "c \<noteq> slash \<Longrightarrow> \<not> dotElem c cs \<Longrightarrow> \<not> dotdotElem c cs \<Longrightarrow>
      rootedElems (elemStep True (takeWhile noSlash (c # cs)) ?st)"
    using inv by (rule rootedElems_elemStep)
  show ?case
    unfolding r L
    using IH inv dd el
    by (auto simp: dotElem_def dotdotElem_def dotdotStep_def elemStep_def)
qed

lemma TrimLeft_no_leading:
  "TrimLeft s cutset = [] \<or> hd (TrimLeft s cutset) \<notin> set cutset"
  unfolding TrimLeft_def using hd_dropWhile [of "\<lambda>c. c \<in> set cutset" s] by blast

lemma repoName_onie: "repoName ''/images'' ''onie'' = ''images/onie''"
  by code_simp

lemma repoName_other: "repoName ''/images'' ''../other'' = ''other''"
  by code_simp

lemma repoName_images: "repoName ''/images'' [] = ''images''"
  by code_simp

lemma repoName_rooted_first_elem:
  "takeWhile noSlash (repoName [] (slash # a)) \<noteq> [dot] \<and>
   takeWhile noSlash (repoName [] (slash # a)) \<noteq> [dot, dot]"
proof -
  obtain out dotdot where st: "cleanLoop True a ([slash], 1) = (out, dotdot)"
    by (cases "cleanLoop True a ([slash], 1)")
  have "rootedElems (cleanLoop True a ([slash], 1))"
    by (rule rootedElems_cleanLoop) (simp_all add: rootedElems_def)
  with st have ne: "out \<noteq> []" and hd: "hd out = slash"
    and r: "tl out = [] \<or> hd (tl out) \<noteq> slash"
    and e: "takeWhile noSlash (tl out) \<noteq> [dot]" "takeWhile noSlash (tl out) \<noteq> [dot, dot]"
    by (auto simp: rootedElems_def)
  from ne hd obtain rest where out: "out = slash # rest" by (cases out) auto
  from r out have "dropWhile (\<lambda>c. c = slash) rest = rest" by (cases rest) auto
  with out st have "repoName [] (slash # a) = rest"
    by (simp add: repoName_def Join_two Clean_def TrimLeft_def)
  with e out show ?thesis by simp
qed

lemma repoName_relative_differs:
  assumes "a \<noteq> []" and "hd a \<noteq> slash"
    and "Clean a = [dot] \<or> takeWhile noSlash (Clean a) = [dot, dot]"
  shows "repoName [] (slash # a) \<noteq> repoName [] a"
proof -
  from assms(3) have "dropWhile (\<lambda>c. c = slash) (Clean a) = Clean a"
    by (cases "Clean a") (auto split: if_splits)
  with assms(1) have n: "repoName [] a = Clean a"
    by (simp add: repoName_def Join_two TrimLeft_def)
  from assms(3) have "takeWhile noSlash (repoName [] a) = [dot] \<or>
      takeWhile noSlash (repoName [] a) = [dot, dot]"
    unfolding n by auto
  with repoName_rooted_first_elem [of a] show ?thesis by auto
qed

section \<open>The repository name\<close>

text \<open>
  C7, as the specification states it: for every path prefix and artifact name the
  repository name never begins with a separator, and an artifact name with a leading
  separator gives the same repository name as the name without it. The second half
  fails for a registry URL without a path: there \<open>Get("/..")\<close> asks for the
  repository \<open>""\<close> and \<open>Get("..")\<close> for the repository \<open>".."\<close>.
\<close>

theorem repoName_leading_separator_counterexample:
  "repoName '''' ''/..'' = '''' \<and> repoName '''' ''..'' = ''..'' \<and>
   repoName '''' ''/..'' \<noteq> repoName '''' ''..''"
  by code_simp

text \<open>
  C7, amended: the repository name never begins with a separator; and a leading
  separator of the artifact name makes no difference exactly when the path prefix is not
  empty, or the name is empty or begins with a separator already, or the cleaned name is
  neither \<open>"."\<close> nor begins with a \<open>..\<close> element. So \<open>Get("/foo")\<close> and
  \<open>Get("foo")\<close> ask for the same repository, with any prefix.
\<close>

theorem repoName_leading_separator:
  "(repoName p a = [] \<or> hd (repoName p a) \<noteq> slash) \<and>
   (repoName p (slash # a) = repoName p a \<longleftrightarrow>
      p \<noteq> [] \<or> a = [] \<or> hd a = slash \<or>
      (Clean a \<noteq> ''.'' \<and> takeWhile noSlash (Clean a) \<noteq> ''..''))"
proof (intro conjI iffI)
  show "repoName p a = [] \<or> hd (repoName p a) \<noteq> slash"
    using TrimLeft_no_leading [of "Join [p, a]" "[slash]"] by (simp add: repoName_def)
next
  assume h: "p \<noteq> [] \<or> a = [] \<or> hd a = slash \<or>
      (Clean a \<noteq> ''.'' \<and> takeWhile noSlash (Clean a) \<noteq> ''..'')"
  show "repoName p (slash # a) = repoName p a"
  proof (cases "p = []")
    case False
    then show ?thesis
      by (simp add: repoName_def Join_two Clean_double_slash)
  next
    case p: True
    show ?thesis
    proof (cases "a = []")
      case True
      with p show ?thesis by (simp add: repoName_def Join_two Clean_root TrimLeft_def)
    next
      case a: False
      show ?thesis
      proof (cases "hd a = slash")
        case True
        with p a show ?thesis by (simp add: repoName_def Join_two Clean_slash_rooted)
      next
        case False
        with h p a have "Clean a \<noteq> [dot]" and "takeWhile noSlash (Clean a) \<noteq> [dot, dot]"
          by simp_all
        with a False have "Clean (slash # a) = slash # Clean a"
          by (intro Clean_slash_relative)
        with p a show ?thesis by (simp add: repoName_def Join_two TrimLeft_def)
      qed
    qed
  qed
next
  assume eq: "repoName p (slash # a) = repoName p a"
  show "p \<noteq> [] \<or> a = [] \<or> hd a = slash \<or>
      (Clean a \<noteq> ''.'' \<and> takeWhile noSlash (Clean a) \<noteq> ''..'')"
  proof (rule ccontr)
    assume "\<not> (p \<noteq> [] \<or> a = [] \<or> hd a = slash \<or>
      (Clean a \<noteq> ''.'' \<and> takeWhile noSlash (Clean a) \<noteq> ''..''))"
    then have p: "p = []" and a: "a \<noteq> []" "hd a \<noteq> slash"
      and c: "Clean a = [dot] \<or> takeWhile noSlash (Clean a) = [dot, dot]"
      by auto
    from repoName_relative_differs [OF a c] eq p show False by simp
  qed
qed

theorem repoName_leading_separator_witness:
  "repoName ''/images'' ''/foo'' = repoName ''/images'' ''foo'' \<and>
   repoName '''' ''/foo'' = repoName '''' ''foo'' \<and> repoName '''' ''foo'' = ''foo'' \<and>
   repoName '''' ''/.'' \<noteq> repoName '''' ''.''"
proof -
  have c: "Clean ''foo'' = ''foo''" by code_simp
  have d: "Clean ''.'' = ''.''" by code_simp
  have "repoName ''/images'' ''/foo'' = repoName ''/images'' ''foo''"
    using repoName_leading_separator [of "''/images''" "''foo''"] by simp
  moreover have "repoName '''' ''/foo'' = repoName '''' ''foo''"
    using repoName_leading_separator [of "''''" "''foo''"] c by simp
  moreover have "repoName '''' ''foo'' = ''foo''" by code_simp
  moreover have "repoName '''' ''/.'' \<noteq> repoName '''' ''.''"
    using repoName_leading_separator [of "''''" "''.''"] d by simp
  ultimately show ?thesis by simp
qed

text \<open>
  C10: the repository name is checked by nothing but the join and the strip. With the
  path prefix \<open>/images\<close>, whose own repository name is \<open>images\<close>, the artifact name
  \<open>../other\<close> gives the repository \<open>other\<close>, which is not under the prefix; \<open>Get\<close>
  asks the registry for it, copies from it and returns its content.
\<close>

theorem repoName_leaves_prefix:
  "repoName ''/images'' ''../other'' = ''other'' \<and>
   repoName ''/images'' [] = ''images'' \<and>
   \<not> prefix (repoName ''/images'' []) (repoName ''/images'' ''../other'') \<and>
   Get (exampleEnv [layerNode]) exampleProvider ''../other'' emptyWorld =
     Return (Some (StoreStream (ContentStream 3)),
       called (CallFetch layerNode)
         (copied ''other'' ''/var/lib/seeder'' ''/var/lib/seeder/oras-provider-file-store-1''
            \<lparr>repoRegistry = ''registry.local:5000'', repoRepository = ''other''\<rparr>
            exampleRoot emptyWorld))"
  by (simp add: Get_def Let_def repoName_other repoName_images exampleProvider_def exampleEnv_def
      emptyWorld_def call_Repository_def os_MkdirTemp_def fetchArtifact_def call_file_New_def
      call_oras_Copy_def call_Successors_def selectNode_def call_Fetch_def deferredCleanup_def
      called_def copied_def tagName_def)

section \<open>The constructor\<close>

lemma Provider_example:
  "Provider (exampleEnv nodes) ''oci://registry.local:5000/images'' ''/var/lib/seeder''
     [withCredentials] = Inr exampleProvider"
  by (simp add: Provider_def exampleEnv_def exampleParse_def exampleNewRegistry_def
      withCredentials_def exampleProvider_def)

lemma Provider_sets_pointers:
  assumes "Provider e registryURL base options = Inr op"
  shows "\<exists>u reg. url op = Some u \<and> registry op = Some reg \<and> url_Parse e registryURL = Inr u
           \<and> remote_NewRegistry e (Host u) = Inr reg"
  using assms by (auto simp: Provider_def Let_def split: sum.splits if_splits)

text \<open>
  C4, as the specification states it: the constructor fails if and only if the base path
  is empty, the URL does not parse, or its scheme is not \<open>oci\<close>. There is a fourth
  failure: with a base path, a URL that parses and the scheme \<open>oci\<close>, the constructor
  still fails when the registry client cannot be created for the host of the URL.
\<close>

theorem Provider_error_counterexample:
  "''/var/lib/seeder'' \<noteq> [] \<and>
   url_Parse (exampleEnv []) ''oci://[fe80::1%25en0]/images'' =
     Inr \<lparr>Scheme = ''oci'', Host = ''[fe80::1%en0]'', Path = ''/images''\<rparr> \<and>
   Provider (exampleEnv []) ''oci://[fe80::1%25en0]/images'' ''/var/lib/seeder'' [] =
     Inl (Wrap ''create ORAS client'' (Error ''invalid reference: invalid registry''))"
  by (simp add: Provider_def exampleEnv_def exampleParse_def exampleNewRegistry_def)

text \<open>
  C4, amended: the constructor returns an error, and no provider, if and only if the base
  path is empty, the registry URL does not parse, the scheme of the parsed URL is not
  \<open>oci\<close>, or the registry client cannot be created for the host of the parsed URL. The
  error is the result of the constructor itself; nothing is left to the first fetch.
\<close>

theorem Provider_error_iff:
  "isl (Provider e registryURL base options) \<longleftrightarrow>
     base = [] \<or>
     (case url_Parse e registryURL of
        Inl err \<Rightarrow> True
      | Inr u \<Rightarrow> Scheme u \<noteq> ''oci'' \<or> isl (remote_NewRegistry e (Host u)))"
  by (simp add: Provider_def Let_def split: sum.splits)

theorem Provider_error_iff_witness:
  "\<not> isl (Provider (exampleEnv []) ''oci://registry.local:5000/images'' ''/var/lib/seeder'' []) \<and>
   isl (Provider (exampleEnv []) ''oci://registry.local:5000/images'' [] []) \<and>
   isl (Provider (exampleEnv []) '':'' ''/var/lib/seeder'' []) \<and>
   isl (Provider (exampleEnv []) ''https://registry.local/images'' ''/var/lib/seeder'' []) \<and>
   isl (Provider (exampleEnv []) ''oci://[fe80::1%25en0]/images'' ''/var/lib/seeder'' [])"
  using Provider_error_iff [of "exampleEnv []" "''oci://registry.local:5000/images''" "''/var/lib/seeder''" "[]"]
    Provider_error_iff [of "exampleEnv []" "''oci://registry.local:5000/images''" "[]" "[]"]
    Provider_error_iff [of "exampleEnv []" "'':''" "''/var/lib/seeder''" "[]"]
    Provider_error_iff [of "exampleEnv []" "''https://registry.local/images''" "''/var/lib/seeder''" "[]"]
    Provider_error_iff [of "exampleEnv []" "''oci://[fe80::1%25en0]/images''" "''/var/lib/seeder''" "[]"]
  by (simp add: exampleEnv_def exampleParse_def exampleNewRegistry_def)

text \<open>
  C8: for a target that is the host of the registry URL, the credential function
  returns the configured user name, password, access token and refresh token; for
  every other target it returns the empty credential. It never returns an error.
\<close>

theorem creds_by_host:
  assumes "url ret = Some u"
  shows "creds ret target =
     Return (if target = Host u
             then \<lparr>Username = username ret, Password = password ret,
                   AccessToken = accessToken ret, RefreshToken = refreshToken ret\<rparr>
             else EmptyCredential, None)"
  using assms by (simp add: creds_def EmptyCredential_def)

theorem creds_by_host_witness:
  "creds exampleProvider ''registry.local:5000'' =
     Return (\<lparr>Username = ''seeder'', Password = ''secret'', AccessToken = [],
              RefreshToken = []\<rparr>, None) \<and>
   creds exampleProvider ''mirror.example.org'' = Return (EmptyCredential, None)"
proof -
  have u: "url exampleProvider =
      Some \<lparr>Scheme = ''oci'', Host = ''registry.local:5000'', Path = ''/images''\<rparr>"
    by (simp add: exampleProvider_def)
  show ?thesis
    using creds_by_host [OF u, of "''registry.local:5000''"]
      creds_by_host [OF u, of "''mirror.example.org''"]
    by (simp add: exampleProvider_def)
qed

section \<open>The fetch\<close>

text \<open>
  C9: when the registry refuses the repository name that the path prefix and the
  artifact name give, \<open>Get\<close> returns nil; it has logged the refusal as one error entry
  with the name and the error, and it has made no other call: no directory is created
  and nothing is copied.
\<close>

theorem Get_rejects_name:
  assumes "url op = Some u" and "registry op = Some reg"
    and "registry_Repository e reg (repoName (Path u) artifact) = Inl err"
  shows "Get e op artifact w =
     Return (None,
       w\<lparr>logs := logs w @
            [\<lparr>entryLevel = ErrorLevel, entryMsg = ''oras: getting repository reference failed'',
              entryFields = [(''repo'', repoName (Path u) artifact),
                             (''error'', errorString err)]\<rparr>],
         calls := calls w @ [CallRepository (repoName (Path u) artifact)]\<rparr>)"
  using assms
  by (simp add: Get_def Let_def call_Repository_def called_def logError_def
      zap_String_def zap_Error_def)

theorem Get_rejects_name_witness:
  "Get (exampleEnv [layerNode]) exampleProvider ''../..'' emptyWorld =
     Return (None,
       \<lparr>dirs = [],
        logs = [\<lparr>entryLevel = ErrorLevel,
                 entryMsg = ''oras: getting repository reference failed'',
                 entryFields = [(''repo'', []),
                                (''error'', ''invalid reference: invalid repository'')]\<rparr>],
        calls = [CallRepository []]\<rparr>)"
proof -
  have n: "repoName ''/images'' ''../..'' = []" by code_simp
  have "registry_Repository (exampleEnv [layerNode]) \<lparr>Reference = ''registry.local:5000''\<rparr>
      (repoName (Path \<lparr>Scheme = ''oci'', Host = ''registry.local:5000'', Path = ''/images''\<rparr>) ''../..'')
      = Inl (Error ''invalid reference: invalid repository'')"
    by (simp add: n exampleEnv_def)
  from Get_rejects_name [of exampleProvider _ _ "exampleEnv [layerNode]" "''../..''" _ emptyWorld, OF _ _ this]
  show ?thesis
    by (simp add: n exampleProvider_def emptyWorld_def)
qed

text \<open>Up to the choice of the node, a fetch that meets no error goes one way.\<close>

lemma Get_reaches_selection:
  assumes "url op = Some u" and "registry op = Some reg"
    and "registry_Repository e reg (repoName (Path u) artifact) = Inr src"
    and "mkdirTempName e (fileStoreBasePath op) ''oras-provider-file-store-*'' (dirs w) = Inr storePath"
    and "storePath \<notin> set (dirs w)"
    and "file_New e storePath = Inr store"
    and "oras_Copy e src tagName store tagName = Inr rootDesc"
    and "content_Successors e store rootDesc = Inr nodes"
  shows "Get e op artifact w =
     Return (deferredCleanup e storePath
       (selectNode e store (repoName (Path u) artifact) storePath nodes
          (copied (repoName (Path u) artifact) (fileStoreBasePath op) storePath src rootDesc w)))"
  using assms
  by (simp add: Get_def Let_def call_Repository_def os_MkdirTemp_def fetchArtifact_def
      call_file_New_def call_oras_Copy_def call_Successors_def called_def copied_def)

text \<open>The loop over the nodes stops at the first node that is a layer.\<close>

lemma scanNodes_find:
  "scanNodes e store name storePath nodes w =
     (case find (\<lambda>n. MediaType n = MediaTypeImageLayer) nodes of
        None \<Rightarrow> None
      | Some node \<Rightarrow>
          Some (case fileStore_Fetch e store node of
                  Inl err \<Rightarrow>
                    (None, logError ''oras: fetch layer content failed''
                             [zap_String ''repo'' name, zap_Error err] (called (CallFetch node) w))
                | Inr ret \<Rightarrow>
                    (Some (OrasReadCloser \<lparr>fileStorePath = storePath, rc = ret\<rparr>),
                     called (CallFetch node) w)))"
  by (induction nodes) (auto simp: call_Fetch_def split: sum.splits)

text \<open>
  C2: when the root of the copied graph has exactly one successor, \<open>Get\<close> fetches this
  node, whatever its media type, and returns the stream of its content as the file store
  opened it. (When the file store fails to open the content, \<open>Get\<close> logs the error,
  removes the directory and returns nil.)
\<close>

theorem Get_single_successor:
  assumes "url op = Some u" and "registry op = Some reg"
    and "registry_Repository e reg (repoName (Path u) artifact) = Inr src"
    and "mkdirTempName e (fileStoreBasePath op) ''oras-provider-file-store-*'' (dirs w) = Inr storePath"
    and "storePath \<notin> set (dirs w)"
    and "file_New e storePath = Inr store"
    and "oras_Copy e src tagName store tagName = Inr rootDesc"
    and "content_Successors e store rootDesc = Inr [node]"
  shows "Get e op artifact w =
     Return (case fileStore_Fetch e store node of
        Inr ret \<Rightarrow>
          (Some (StoreStream ret),
           called (CallFetch node)
             (copied (repoName (Path u) artifact) (fileStoreBasePath op) storePath src rootDesc w))
      | Inl err \<Rightarrow>
          (None,
           snd (os_RemoveAll e storePath
             (logDebug ''oras: cleaning up temporary file store path''
                [zap_String ''fileStorePath'' storePath]
                (logError ''oras: fetch layer content failed''
                   [zap_String ''repo'' (repoName (Path u) artifact), zap_Error err]
                   (called (CallFetch node)
                      (copied (repoName (Path u) artifact) (fileStoreBasePath op) storePath src
                         rootDesc w)))))))"
  unfolding Get_reaches_selection [OF assms]
  by (simp add: selectNode_def call_Fetch_def deferredCleanup_def split: sum.splits)

theorem Get_single_successor_witness:
  "MediaType configNode \<noteq> MediaTypeImageLayer \<and>
   Get (exampleEnv [configNode]) exampleProvider ''onie'' emptyWorld =
     Return (Some (StoreStream (ContentStream 3)),
       called (CallFetch configNode)
         (copied ''images/onie'' ''/var/lib/seeder'' ''/var/lib/seeder/oras-provider-file-store-1''
            \<lparr>repoRegistry = ''registry.local:5000'', repoRepository = ''images/onie''\<rparr>
            exampleRoot emptyWorld))"
proof -
  let ?e = "exampleEnv [configNode]"
  let ?u = "\<lparr>Scheme = ''oci'', Host = ''registry.local:5000'', Path = ''/images''\<rparr>"
  let ?reg = "\<lparr>Reference = ''registry.local:5000''\<rparr>"
  let ?src = "\<lparr>repoRegistry = ''registry.local:5000'', repoRepository = ''images/onie''\<rparr>"
  let ?p = "''/var/lib/seeder/oras-provider-file-store-1''"
  let ?store = "\<lparr>workingDir = ?p\<rparr>"
  have 1: "url exampleProvider = Some ?u" and 2: "registry exampleProvider = Some ?reg"
    by (simp_all add: exampleProvider_def)
  have 3: "registry_Repository ?e ?reg (repoName (Path ?u) ''onie'') = Inr ?src"
    by (simp add: repoName_onie exampleEnv_def)
  have 4: "mkdirTempName ?e (fileStoreBasePath exampleProvider) ''oras-provider-file-store-*''
      (dirs emptyWorld) = Inr ?p"
    by (simp add: exampleEnv_def exampleProvider_def)
  have 5: "?p \<notin> set (dirs emptyWorld)" by (simp add: emptyWorld_def)
  have 6: "file_New ?e ?p = Inr ?store" by (simp add: exampleEnv_def)
  have 7: "oras_Copy ?e ?src tagName ?store tagName = Inr exampleRoot"
    by (simp add: exampleEnv_def)
  have 8: "content_Successors ?e ?store exampleRoot = Inr [configNode]"
    by (simp add: exampleEnv_def)
  have f: "fileStore_Fetch ?e ?store configNode = Inr (ContentStream 3)"
    by (simp add: exampleEnv_def)
  have m: "MediaType configNode \<noteq> MediaTypeImageLayer"
    by (simp add: configNode_def MediaTypeImageLayer_def)
  from Get_single_successor [OF 1 2 3 4 5 6 7 8] f m
  show ?thesis
    by (simp add: repoName_onie exampleProvider_def)
qed

text \<open>
  C3: when the root of the copied graph has more than one successor, \<open>Get\<close> fetches the
  first node, in the order of the list, whose media type is that of an image layer, and
  returns a handle on its stream that owns the directory; when no node has this media
  type, \<open>Get\<close> logs that the artifact has no layer, removes the directory and returns
  nil. The choice is a function of the list of successors.
\<close>

theorem Get_multi_successor:
  assumes "url op = Some u" and "registry op = Some reg"
    and "registry_Repository e reg (repoName (Path u) artifact) = Inr src"
    and "mkdirTempName e (fileStoreBasePath op) ''oras-provider-file-store-*'' (dirs w) = Inr storePath"
    and "storePath \<notin> set (dirs w)"
    and "file_New e storePath = Inr store"
    and "oras_Copy e src tagName store tagName = Inr rootDesc"
    and "content_Successors e store rootDesc = Inr nodes"
    and "1 < length nodes"
  shows "Get e op artifact w =
     Return (case find (\<lambda>n. MediaType n = MediaTypeImageLayer) nodes of
        Some node \<Rightarrow>
          (case fileStore_Fetch e store node of
             Inr ret \<Rightarrow>
               (Some (OrasReadCloser \<lparr>fileStorePath = storePath, rc = ret\<rparr>),
                called (CallFetch node)
                  (copied (repoName (Path u) artifact) (fileStoreBasePath op) storePath src
                     rootDesc w))
           | Inl err \<Rightarrow>
               (None,
                snd (os_RemoveAll e storePath
                  (logDebug ''oras: cleaning up temporary file store path''
                     [zap_String ''fileStorePath'' storePath]
                     (logError ''oras: fetch layer content failed''
                        [zap_String ''repo'' (repoName (Path u) artifact), zap_Error err]
                        (called (CallFetch node)
                           (copied (repoName (Path u) artifact) (fileStoreBasePath op) storePath
                              src rootDesc w)))))))
      | None \<Rightarrow>
          (None,
           snd (os_RemoveAll e storePath
             (logDebug ''oras: cleaning up temporary file store path''
                [zap_String ''fileStorePath'' storePath]
                (logError ''oras: no image layers in artifact''
                   [zap_String ''repo'' (repoName (Path u) artifact)]
                   (copied (repoName (Path u) artifact) (fileStoreBasePath op) storePath src
                      rootDesc w))))))"
proof -
  from assms(9) have n: "length nodes \<noteq> 1" by simp
  show ?thesis
    unfolding Get_reaches_selection [OF assms(1-8)]
    using n
    by (simp add: selectNode_def scanNodes_find deferredCleanup_def
        split: sum.splits option.splits)
qed

theorem Get_multi_successor_witness:
  "Get (exampleEnv [manifestNode, layerNode, configNode]) exampleProvider ''onie'' emptyWorld =
     Return (Some (OrasReadCloser
               \<lparr>fileStorePath = ''/var/lib/seeder/oras-provider-file-store-1'',
                rc = ContentStream 3\<rparr>),
       called (CallFetch layerNode)
         (copied ''images/onie'' ''/var/lib/seeder'' ''/var/lib/seeder/oras-provider-file-store-1''
            \<lparr>repoRegistry = ''registry.local:5000'', repoRepository = ''images/onie''\<rparr>
            exampleRoot emptyWorld)) \<and>
   fst (case Get (exampleEnv [manifestNode, configNode]) exampleProvider ''onie'' emptyWorld of
          Return r \<Rightarrow> r) = None"
proof -
  let ?u = "\<lparr>Scheme = ''oci'', Host = ''registry.local:5000'', Path = ''/images''\<rparr>"
  let ?reg = "\<lparr>Reference = ''registry.local:5000''\<rparr>"
  let ?src = "\<lparr>repoRegistry = ''registry.local:5000'', repoRepository = ''images/onie''\<rparr>"
  let ?p = "''/var/lib/seeder/oras-provider-file-store-1''"
  let ?store = "\<lparr>workingDir = ?p\<rparr>"
  have 1: "url exampleProvider = Some ?u" and 2: "registry exampleProvider = Some ?reg"
    by (simp_all add: exampleProvider_def)
  have 3: "registry_Repository (exampleEnv ns) ?reg (repoName (Path ?u) ''onie'') = Inr ?src" for ns
    by (simp add: repoName_onie exampleEnv_def)
  have 4: "mkdirTempName (exampleEnv ns) (fileStoreBasePath exampleProvider)
      ''oras-provider-file-store-*'' (dirs emptyWorld) = Inr ?p" for ns
    by (simp add: exampleEnv_def exampleProvider_def)
  have 5: "?p \<notin> set (dirs emptyWorld)" by (simp add: emptyWorld_def)
  have 6: "file_New (exampleEnv ns) ?p = Inr ?store" for ns by (simp add: exampleEnv_def)
  have 7: "oras_Copy (exampleEnv ns) ?src tagName ?store tagName = Inr exampleRoot" for ns
    by (simp add: exampleEnv_def)
  have 8: "content_Successors (exampleEnv ns) ?store exampleRoot = Inr ns" for ns
    by (simp add: exampleEnv_def)
  have f: "fileStore_Fetch (exampleEnv ns) ?store d = Inr (ContentStream 3)" for ns d
    by (simp add: exampleEnv_def)
  let ?ns = "[manifestNode, layerNode, configNode]" and ?ns' = "[manifestNode, configNode]"
  have fnd: "find (\<lambda>n. MediaType n = MediaTypeImageLayer) [manifestNode, layerNode, configNode]
      = Some layerNode"
    by (simp add: manifestNode_def layerNode_def configNode_def MediaTypeImageLayer_def)
  have fnd': "find (\<lambda>n. MediaType n = MediaTypeImageLayer) [manifestNode, configNode] = None"
    by (simp add: manifestNode_def configNode_def MediaTypeImageLayer_def)
  have a: "Get (exampleEnv [manifestNode, layerNode, configNode]) exampleProvider ''onie'' emptyWorld =
     Return (Some (OrasReadCloser \<lparr>fileStorePath = ?p, rc = ContentStream 3\<rparr>),
       called (CallFetch layerNode)
         (copied ''images/onie'' ''/var/lib/seeder'' ?p ?src exampleRoot emptyWorld))"
    using Get_multi_successor [OF 1 2 3 [of ?ns] 4 [of ?ns] 5 6 [of ?ns] 7 [of ?ns] 8 [of ?ns],
        unfolded fnd f]
    by (simp add: repoName_onie exampleProvider_def)
  have b: "fst (case Get (exampleEnv [manifestNode, configNode]) exampleProvider ''onie'' emptyWorld of
          Return r \<Rightarrow> r) = None"
    using Get_multi_successor [OF 1 2 3 [of ?ns'] 4 [of ?ns'] 5 6 [of ?ns'] 7 [of ?ns'] 8 [of ?ns'],
        unfolded fnd']
    by simp
  from a b show ?thesis by simp
qed

section \<open>The directory of the file store\<close>

lemma removals_called:
  "removals p (called c w) = (if c = CallRemoveAll p then Suc (removals p w) else removals p w)"
  by (simp add: removals_def called_def)

lemma removals_log [simp]:
  "removals p (logError m fs w) = removals p w" "removals p (logDebug m fs w) = removals p w"
  by (simp_all add: removals_def logError_def logDebug_def)

lemma removals_RemoveAll:
  "removals p (snd (os_RemoveAll e q w)) = (if q = p then Suc (removals p w) else removals p w)"
  by (simp add: os_RemoveAll_def Let_def removals_def called_def split: option.splits)

lemma removals_stream_Close [simp]: "removals p (snd (stream_Close e s w)) = removals p w"
  by (simp add: stream_Close_def removals_called)

lemma removals_call_Fetch [simp]: "removals p (snd (call_Fetch e store d w)) = removals p w"
  by (simp add: call_Fetch_def removals_called)

lemma scanNodes_shape:
  assumes "scanNodes e store name storePath nodes w = Some (r, w1)"
  shows "removals p w1 = removals p w \<and>
         (r = None \<or> (\<exists>ret. r = Some (OrasReadCloser \<lparr>fileStorePath = storePath, rc = ret\<rparr>)))"
  using assms
proof (induction nodes)
  case Nil
  then show ?case by simp
next
  case (Cons node nodes)
  show ?case
  proof (cases "MediaType node = MediaTypeImageLayer")
    case True
    obtain x w' where c: "call_Fetch e store node w = (x, w')"
      by (cases "call_Fetch e store node w")
    then have "removals p w' = removals p w"
      using removals_call_Fetch [of p e store node w] by simp
    with Cons.prems True c show ?thesis
      by (cases x) auto
  next
    case False
    with Cons show ?thesis by simp
  qed
qed

lemma selectNode_shape:
  assumes "selectNode e store name storePath nodes w = (r, w1)"
  shows "removals p w1 = removals p w \<and>
         (r = None \<or> (\<exists>ret. r = Some (StoreStream ret)) \<or>
          (\<exists>ret. r = Some (OrasReadCloser \<lparr>fileStorePath = storePath, rc = ret\<rparr>)))"
proof (cases "length nodes = 1")
  case True
  obtain x w' where c: "call_Fetch e store (nodes ! 0) w = (x, w')"
    by (cases "call_Fetch e store (nodes ! 0) w")
  then have "removals p w' = removals p w"
    using removals_call_Fetch [of p e store "nodes ! 0" w] by simp
  with assms True c show ?thesis
    by (cases x) (auto simp: selectNode_def)
next
  case False
  show ?thesis
  proof (cases "scanNodes e store name storePath nodes w")
    case None
    with assms False show ?thesis by (auto simp: selectNode_def)
  next
    case (Some a)
    with assms False have "scanNodes e store name storePath nodes w = Some (r, w1)"
      by (simp add: selectNode_def)
    from scanNodes_shape [OF this, of p] show ?thesis by auto
  qed
qed

lemma fetchArtifact_shape:
  assumes "fetchArtifact e src name storePath w = (r, w1)"
  shows "removals p w1 = removals p w \<and>
         (r = None \<or> (\<exists>ret. r = Some (StoreStream ret)) \<or>
          (\<exists>ret. r = Some (OrasReadCloser \<lparr>fileStorePath = storePath, rc = ret\<rparr>)))"
proof (cases "file_New e storePath")
  case (Inl err)
  with assms show ?thesis
    by (auto simp: fetchArtifact_def call_file_New_def removals_called)
next
  case store: (Inr store)
  show ?thesis
  proof (cases "oras_Copy e src tagName store tagName")
    case (Inl err)
    with assms store show ?thesis
      by (auto simp: fetchArtifact_def call_file_New_def call_oras_Copy_def removals_called)
  next
    case root: (Inr rootDesc)
    show ?thesis
    proof (cases "content_Successors e store rootDesc")
      case (Inl err)
      with assms store root show ?thesis
        by (auto simp: fetchArtifact_def call_file_New_def call_oras_Copy_def
            call_Successors_def removals_called)
    next
      case (Inr nodes)
      let ?w3 = "called (CallSuccessors rootDesc)
          (called (CallCopy src tagName tagName) (called (CallFileNew storePath) w))"
      from assms store root Inr have "selectNode e store name storePath nodes ?w3 = (r, w1)"
        by (simp add: fetchArtifact_def call_file_New_def call_oras_Copy_def call_Successors_def)
      from selectNode_shape [OF this, of p] show ?thesis
        by (simp add: removals_called)
    qed
  qed
qed

text \<open>
  Once the directory exists, its removal is asked for exactly once in two of the three
  ways out of \<open>Get\<close>: by \<open>Get\<close> itself when it returns nil, and by \<open>Close\<close> when
  \<open>Get\<close> returns an \<open>*orasReadCloser\<close>. When \<open>Get\<close> returns the stream of the file
  store as it is, neither \<open>Get\<close> nor \<open>Close\<close> asks for it.
\<close>

lemma Get_store_cleanup:
  assumes "url op = Some u" and "registry op = Some reg"
    and "registry_Repository e reg (repoName (Path u) artifact) = Inr src"
    and "mkdirTempName e (fileStoreBasePath op) ''oras-provider-file-store-*'' (dirs w) = Inr storePath"
    and "storePath \<notin> set (dirs w)"
  shows "\<exists>r w1. Get e op artifact w = Return (r, w1) \<and>
        (case r of
           None \<Rightarrow> removals storePath w1 = Suc (removals storePath w)
         | Some (OrasReadCloser orc) \<Rightarrow>
             fileStorePath orc = storePath \<and>
             removals storePath w1 = removals storePath w \<and>
             removals storePath (snd (Close e (OrasReadCloser orc) w1)) =
               Suc (removals storePath w)
         | Some (StoreStream s) \<Rightarrow>
             removals storePath (snd (Close e (StoreStream s) w1)) = removals storePath w)"
proof -
  let ?name = "repoName (Path u) artifact"
  let ?w2 = "(called (CallMkdirTemp (fileStoreBasePath op) ''oras-provider-file-store-*'')
      (called (CallRepository ?name) w))\<lparr>dirs := dirs w @ [storePath]\<rparr>"
  obtain r w3 where f: "fetchArtifact e src ?name storePath ?w2 = (r, w3)"
    by (cases "fetchArtifact e src ?name storePath ?w2")
  have g: "Get e op artifact w = Return (deferredCleanup e storePath (r, w3))"
    using assms f
    by (simp add: Get_def Let_def call_Repository_def os_MkdirTemp_def called_def)
  have w2: "removals storePath ?w2 = removals storePath w"
    by (simp add: removals_def called_def)
  from fetchArtifact_shape [OF f, of storePath] w2
  have shape: "removals storePath w3 = removals storePath w"
    "r = None \<or> (\<exists>ret. r = Some (StoreStream ret)) \<or>
          (\<exists>ret. r = Some (OrasReadCloser \<lparr>fileStorePath = storePath, rc = ret\<rparr>))"
    by simp_all
  from shape(2) show ?thesis
  proof (elim disjE exE)
    assume "r = None"
    with g shape(1) show ?thesis
      by (simp add: deferredCleanup_def removals_RemoveAll)
  next
    fix ret assume "r = Some (StoreStream ret)"
    with g shape(1) show ?thesis
      by (simp add: deferredCleanup_def)
  next
    fix ret assume "r = Some (OrasReadCloser \<lparr>fileStorePath = storePath, rc = ret\<rparr>)"
    with g shape(1) show ?thesis
      by (simp add: deferredCleanup_def orasReadCloser_Close_def removals_RemoveAll
          split: prod.splits)
         (metis removals_stream_Close snd_conv)
  qed
qed

text \<open>
  C1 says that the directory is removed exactly once on every path, the graph with one
  successor included. On that path it is not removed at all: \<open>Get\<close> returns the stream
  of the file store, the deferred cleanup sees a result that is not nil, and the
  \<open>Close\<close> of the stream removes nothing. After \<open>Get\<close> and \<open>Close\<close> the directory is
  still there, and no removal has been asked for.
\<close>

theorem Get_single_successor_leaks:
  "Get (exampleEnv [layerNode]) exampleProvider ''onie'' emptyWorld =
     Return (Some (StoreStream (ContentStream 3)),
       called (CallFetch layerNode)
         (copied ''images/onie'' ''/var/lib/seeder'' ''/var/lib/seeder/oras-provider-file-store-1''
            \<lparr>repoRegistry = ''registry.local:5000'', repoRepository = ''images/onie''\<rparr>
            exampleRoot emptyWorld)) \<and>
   (case Close (exampleEnv [layerNode]) (StoreStream (ContentStream 3))
      (called (CallFetch layerNode)
         (copied ''images/onie'' ''/var/lib/seeder'' ''/var/lib/seeder/oras-provider-file-store-1''
            \<lparr>repoRegistry = ''registry.local:5000'', repoRepository = ''images/onie''\<rparr>
            exampleRoot emptyWorld)) of
      (err, w) \<Rightarrow>
        err = None \<and> dirs w = [''/var/lib/seeder/oras-provider-file-store-1''] \<and>
        count_list (calls w) (CallRemoveAll ''/var/lib/seeder/oras-provider-file-store-1'') = 0)"
  by (simp add: Get_def Let_def repoName_onie exampleProvider_def exampleEnv_def emptyWorld_def
      call_Repository_def os_MkdirTemp_def fetchArtifact_def call_file_New_def
      call_oras_Copy_def call_Successors_def selectNode_def call_Fetch_def deferredCleanup_def
      called_def copied_def stream_Close_def tagName_def)

section \<open>Closing the handle\<close>

text \<open>
  C5, as the specification states it: \<open>Close\<close> returns the error of the stream, and a
  failure to remove the directory is logged but not returned. The failure is not
  logged: where the removal fails, the log of \<open>Close\<close> holds the one debug entry that
  announces the cleanup, the same as where the removal succeeds.
\<close>

theorem orasReadCloser_Close_counterexample:
  "orasReadCloser_Close (stuckEnv [])
     \<lparr>fileStorePath = ''/var/lib/seeder/oras-provider-file-store-1'', rc = ContentStream 3\<rparr>
     \<lparr>dirs = [''/var/lib/seeder/oras-provider-file-store-1''], logs = [], calls = []\<rparr> =
   (None,
    \<lparr>dirs = [''/var/lib/seeder/oras-provider-file-store-1''],
     logs = [\<lparr>entryLevel = DebugLevel,
              entryMsg = ''oras: ReadCloser: cleaning up temporary file store path on Close'',
              entryFields = [(''fileStorePath'', ''/var/lib/seeder/oras-provider-file-store-1'')]\<rparr>],
     calls = [CallStreamClose (ContentStream 3),
              CallRemoveAll ''/var/lib/seeder/oras-provider-file-store-1'']\<rparr>) \<and>
   fst (os_RemoveAll (stuckEnv []) ''/var/lib/seeder/oras-provider-file-store-1''
     \<lparr>dirs = [''/var/lib/seeder/oras-provider-file-store-1''], logs = [], calls = []\<rparr>) =
     Some (Error ''permission denied'') \<and>
   logs (snd (orasReadCloser_Close (stuckEnv [])
     \<lparr>fileStorePath = ''/var/lib/seeder/oras-provider-file-store-1'', rc = ContentStream 3\<rparr>
     \<lparr>dirs = [''/var/lib/seeder/oras-provider-file-store-1''], logs = [], calls = []\<rparr>)) =
   logs (snd (orasReadCloser_Close (exampleEnv [])
     \<lparr>fileStorePath = ''/var/lib/seeder/oras-provider-file-store-1'', rc = ContentStream 3\<rparr>
     \<lparr>dirs = [''/var/lib/seeder/oras-provider-file-store-1''], logs = [], calls = []\<rparr>))"
  by (simp add: orasReadCloser_Close_def stream_Close_def os_RemoveAll_def called_def
      logDebug_def zap_String_def Let_def stuckEnv_def exampleEnv_def inTree_def)

text \<open>
  C5, amended: \<open>Close\<close> first closes the stream and returns exactly the error of this
  close; it then asks for the removal of the directory tree. The outcome of the removal
  is dropped: a failure is neither returned nor logged, the only log entry of \<open>Close\<close>
  being the debug entry that announces the cleanup.
\<close>

theorem orasReadCloser_Close_result:
  "fst (orasReadCloser_Close e orc w) =
     streamCloseResult e (rc orc) (count_list (calls w) (CallStreamClose (rc orc))) \<and>
   calls (snd (orasReadCloser_Close e orc w)) =
     calls w @ [CallStreamClose (rc orc), CallRemoveAll (fileStorePath orc)] \<and>
   logs (snd (orasReadCloser_Close e orc w)) =
     logs w @
       [\<lparr>entryLevel = DebugLevel,
         entryMsg = ''oras: ReadCloser: cleaning up temporary file store path on Close'',
         entryFields = [(''fileStorePath'', fileStorePath orc)]\<rparr>]"
  by (simp add: orasReadCloser_Close_def stream_Close_def os_RemoveAll_def called_def
      logDebug_def zap_String_def Let_def split: option.splits)

theorem orasReadCloser_Close_result_witness:
  "fst (orasReadCloser_Close (stuckEnv [])
          \<lparr>fileStorePath = ''/var/lib/seeder/oras-provider-file-store-1'', rc = ContentStream 3\<rparr>
          \<lparr>dirs = [''/var/lib/seeder/oras-provider-file-store-1''], logs = [], calls = []\<rparr>) = None \<and>
   calls (snd (orasReadCloser_Close (stuckEnv [])
          \<lparr>fileStorePath = ''/var/lib/seeder/oras-provider-file-store-1'', rc = ContentStream 3\<rparr>
          \<lparr>dirs = [''/var/lib/seeder/oras-provider-file-store-1''], logs = [], calls = []\<rparr>)) =
     [CallStreamClose (ContentStream 3),
      CallRemoveAll ''/var/lib/seeder/oras-provider-file-store-1'']"
  using orasReadCloser_Close_result [of "stuckEnv []"
      "\<lparr>fileStorePath = ''/var/lib/seeder/oras-provider-file-store-1'', rc = ContentStream 3\<rparr>"
      "\<lparr>dirs = [''/var/lib/seeder/oras-provider-file-store-1''], logs = [], calls = []\<rparr>"]
  by (simp add: stuckEnv_def exampleEnv_def)

lemma filter_inTree_gone: "\<not> list_ex (inTree p) (filter (\<lambda>d. \<not> inTree p d) ds)"
  by (simp add: list_ex_iff)

text \<open>
  C6, as the specification states it: a second \<open>Close\<close> on a handle is a safe no-op.
  It is not: \<open>Close\<close> has no memory of an earlier call, so the second one does all of it
  again. On a stream that refuses a second close, as a file does, the second \<open>Close\<close>
  returns the error of the stream where the first returned nil; it writes its log entry
  again and asks for the removal again. And where the first removal failed and the
  second succeeds, it is the second \<open>Close\<close> that removes the directory.
\<close>

theorem second_Close_counterexample:
  "orasReadCloser_Close (exampleEnv [])
     \<lparr>fileStorePath = ''/var/lib/seeder/oras-provider-file-store-1'', rc = ContentStream 3\<rparr>
     \<lparr>dirs = [''/var/lib/seeder/oras-provider-file-store-1''], logs = [], calls = []\<rparr> =
   (None,
    \<lparr>dirs = [],
     logs = [\<lparr>entryLevel = DebugLevel,
              entryMsg = ''oras: ReadCloser: cleaning up temporary file store path on Close'',
              entryFields = [(''fileStorePath'', ''/var/lib/seeder/oras-provider-file-store-1'')]\<rparr>],
     calls = [CallStreamClose (ContentStream 3),
              CallRemoveAll ''/var/lib/seeder/oras-provider-file-store-1'']\<rparr>) \<and>
   orasReadCloser_Close (exampleEnv [])
     \<lparr>fileStorePath = ''/var/lib/seeder/oras-provider-file-store-1'', rc = ContentStream 3\<rparr>
     \<lparr>dirs = [],
      logs = [\<lparr>entryLevel = DebugLevel,
               entryMsg = ''oras: ReadCloser: cleaning up temporary file store path on Close'',
               entryFields = [(''fileStorePath'', ''/var/lib/seeder/oras-provider-file-store-1'')]\<rparr>],
      calls = [CallStreamClose (ContentStream 3),
               CallRemoveAll ''/var/lib/seeder/oras-provider-file-store-1'']\<rparr> =
   (Some (Error ''file already closed''),
    \<lparr>dirs = [],
     logs = [\<lparr>entryLevel = DebugLevel,
              entryMsg = ''oras: ReadCloser: cleaning up temporary file store path on Close'',
              entryFields = [(''fileStorePath'', ''/var/lib/seeder/oras-provider-file-store-1'')]\<rparr>,
             \<lparr>entryLevel = DebugLevel,
              entryMsg = ''oras: ReadCloser: cleaning up temporary file store path on Close'',
              entryFields = [(''fileStorePath'', ''/var/lib/seeder/oras-provider-file-store-1'')]\<rparr>],
     calls = [CallStreamClose (ContentStream 3),
              CallRemoveAll ''/var/lib/seeder/oras-provider-file-store-1'',
              CallStreamClose (ContentStream 3),
              CallRemoveAll ''/var/lib/seeder/oras-provider-file-store-1'']\<rparr>) \<and>
   dirs (snd (orasReadCloser_Close (retryEnv [])
     \<lparr>fileStorePath = ''/var/lib/seeder/oras-provider-file-store-1'', rc = ContentStream 3\<rparr>
     \<lparr>dirs = [''/var/lib/seeder/oras-provider-file-store-1''], logs = [], calls = []\<rparr>)) =
     [''/var/lib/seeder/oras-provider-file-store-1''] \<and>
   dirs (snd (orasReadCloser_Close (retryEnv [])
     \<lparr>fileStorePath = ''/var/lib/seeder/oras-provider-file-store-1'', rc = ContentStream 3\<rparr>
     (snd (orasReadCloser_Close (retryEnv [])
        \<lparr>fileStorePath = ''/var/lib/seeder/oras-provider-file-store-1'', rc = ContentStream 3\<rparr>
        \<lparr>dirs = [''/var/lib/seeder/oras-provider-file-store-1''], logs = [], calls = []\<rparr>)))) = []"
  by (simp add: orasReadCloser_Close_def stream_Close_def os_RemoveAll_def called_def
      logDebug_def zap_String_def Let_def exampleEnv_def retryEnv_def inTree_def)

lemma orasReadCloser_Close_once:
  "orasReadCloser_Close e orc w =
     (streamCloseResult e (rc orc) (count_list (calls w) (CallStreamClose (rc orc))),
      \<lparr>dirs =
         (if list_ex (inTree (fileStorePath orc)) (dirs w) \<and>
             removeAllResult e (fileStorePath orc)
               (count_list (calls w) (CallRemoveAll (fileStorePath orc))) = None
          then filter (\<lambda>d. \<not> inTree (fileStorePath orc) d) (dirs w)
          else dirs w),
       logs = logs w @
         [\<lparr>entryLevel = DebugLevel,
           entryMsg = ''oras: ReadCloser: cleaning up temporary file store path on Close'',
           entryFields = [(''fileStorePath'', fileStorePath orc)]\<rparr>],
       calls = calls w @ [CallStreamClose (rc orc), CallRemoveAll (fileStorePath orc)]\<rparr>)"
  by (cases w)
    (simp add: orasReadCloser_Close_def stream_Close_def os_RemoveAll_def called_def
      logDebug_def zap_String_def Let_def split: option.splits)

text \<open>
  C6, amended: a second \<open>Close\<close> on a handle that \<open>Get\<close> returned does again what the
  first did. It closes the stream again and returns exactly what the stream answers to
  this second close, which is an error for a stream that refuses it; on an
  \<open>*orasReadCloser\<close> it also writes the debug entry again and asks for the removal of
  the directory again. The outcome of that removal never reaches the caller. The second
  removal changes the directories only where the tree still exists and its removal
  succeeds now: on a directory that is gone, which is what a first removal that
  succeeded leaves, the second \<open>Close\<close> changes no directory. On the stream that \<open>Get\<close>
  returns as it is, the second \<open>Close\<close> is the second close of the stream and nothing
  else.
\<close>

theorem second_Close_repeats:
  "(case orasReadCloser_Close e orc w of
      (err1, w1) \<Rightarrow>
        orasReadCloser_Close e orc w1 =
          (streamCloseResult e (rc orc) (Suc (count_list (calls w) (CallStreamClose (rc orc)))),
           \<lparr>dirs =
              (if list_ex (inTree (fileStorePath orc)) (dirs w1) \<and>
                  removeAllResult e (fileStorePath orc)
                    (Suc (count_list (calls w) (CallRemoveAll (fileStorePath orc)))) = None
               then filter (\<lambda>d. \<not> inTree (fileStorePath orc) d) (dirs w1)
               else dirs w1),
            logs = logs w @
              [\<lparr>entryLevel = DebugLevel,
                entryMsg = ''oras: ReadCloser: cleaning up temporary file store path on Close'',
                entryFields = [(''fileStorePath'', fileStorePath orc)]\<rparr>,
               \<lparr>entryLevel = DebugLevel,
                entryMsg = ''oras: ReadCloser: cleaning up temporary file store path on Close'',
                entryFields = [(''fileStorePath'', fileStorePath orc)]\<rparr>],
            calls = calls w @
              [CallStreamClose (rc orc), CallRemoveAll (fileStorePath orc),
               CallStreamClose (rc orc), CallRemoveAll (fileStorePath orc)]\<rparr>) \<and>
        (removeAllResult e (fileStorePath orc)
           (count_list (calls w) (CallRemoveAll (fileStorePath orc))) = None \<longrightarrow>
           \<not> list_ex (inTree (fileStorePath orc)) (dirs w1)) \<and>
        (\<not> list_ex (inTree (fileStorePath orc)) (dirs w1) \<longrightarrow>
           dirs (snd (orasReadCloser_Close e orc w1)) = dirs w1)) \<and>
   (case Close e (StoreStream s) w of
      (err1, w1) \<Rightarrow>
        Close e (StoreStream s) w1 =
          (streamCloseResult e s (Suc (count_list (calls w) (CallStreamClose s))),
           \<lparr>dirs = dirs w, logs = logs w,
            calls = calls w @ [CallStreamClose s, CallStreamClose s]\<rparr>))"
proof (intro conjI)
  let ?p = "fileStorePath orc"
  let ?w1 = "snd (orasReadCloser_Close e orc w)"
  have d1: "dirs ?w1 =
      (if list_ex (inTree ?p) (dirs w) \<and>
          removeAllResult e ?p (count_list (calls w) (CallRemoveAll ?p)) = None
       then filter (\<lambda>d. \<not> inTree ?p d) (dirs w) else dirs w)"
    unfolding orasReadCloser_Close_once by simp
  have c1: "calls ?w1 = calls w @ [CallStreamClose (rc orc), CallRemoveAll ?p]"
    and l1: "logs ?w1 = logs w @
       [\<lparr>entryLevel = DebugLevel,
         entryMsg = ''oras: ReadCloser: cleaning up temporary file store path on Close'',
         entryFields = [(''fileStorePath'', ?p)]\<rparr>]"
    unfolding orasReadCloser_Close_once by simp_all
  have second: "orasReadCloser_Close e orc ?w1 =
          (streamCloseResult e (rc orc) (Suc (count_list (calls w) (CallStreamClose (rc orc)))),
           \<lparr>dirs =
              (if list_ex (inTree ?p) (dirs ?w1) \<and>
                  removeAllResult e ?p (Suc (count_list (calls w) (CallRemoveAll ?p))) = None
               then filter (\<lambda>d. \<not> inTree ?p d) (dirs ?w1)
               else dirs ?w1),
            logs = logs w @
              [\<lparr>entryLevel = DebugLevel,
                entryMsg = ''oras: ReadCloser: cleaning up temporary file store path on Close'',
                entryFields = [(''fileStorePath'', ?p)]\<rparr>,
               \<lparr>entryLevel = DebugLevel,
                entryMsg = ''oras: ReadCloser: cleaning up temporary file store path on Close'',
                entryFields = [(''fileStorePath'', ?p)]\<rparr>],
            calls = calls w @
              [CallStreamClose (rc orc), CallRemoveAll ?p,
               CallStreamClose (rc orc), CallRemoveAll ?p]\<rparr>)"
    unfolding orasReadCloser_Close_once [of e orc ?w1] c1 l1 by simp
  have gone: "removeAllResult e ?p (count_list (calls w) (CallRemoveAll ?p)) = None \<longrightarrow>
      \<not> list_ex (inTree ?p) (dirs ?w1)"
    unfolding d1 by (simp add: filter_inTree_gone)
  have same: "\<not> list_ex (inTree ?p) (dirs ?w1) \<longrightarrow>
      dirs (snd (orasReadCloser_Close e orc ?w1)) = dirs ?w1"
    unfolding second by simp
  from second gone same
  show "case orasReadCloser_Close e orc w of
      (err1, w1) \<Rightarrow>
        orasReadCloser_Close e orc w1 =
          (streamCloseResult e (rc orc) (Suc (count_list (calls w) (CallStreamClose (rc orc)))),
           \<lparr>dirs =
              (if list_ex (inTree (fileStorePath orc)) (dirs w1) \<and>
                  removeAllResult e (fileStorePath orc)
                    (Suc (count_list (calls w) (CallRemoveAll (fileStorePath orc)))) = None
               then filter (\<lambda>d. \<not> inTree (fileStorePath orc) d) (dirs w1)
               else dirs w1),
            logs = logs w @
              [\<lparr>entryLevel = DebugLevel,
                entryMsg = ''oras: ReadCloser: cleaning up temporary file store path on Close'',
                entryFields = [(''fileStorePath'', fileStorePath orc)]\<rparr>,
               \<lparr>entryLevel = DebugLevel,
                entryMsg = ''oras: ReadCloser: cleaning up temporary file store path on Close'',
                entryFields = [(''fileStorePath'', fileStorePath orc)]\<rparr>],
            calls = calls w @
              [CallStreamClose (rc orc), CallRemoveAll (fileStorePath orc),
               CallStreamClose (rc orc), CallRemoveAll (fileStorePath orc)]\<rparr>) \<and>
        (removeAllResult e (fileStorePath orc)
           (count_list (calls w) (CallRemoveAll (fileStorePath orc))) = None \<longrightarrow>
           \<not> list_ex (inTree (fileStorePath orc)) (dirs w1)) \<and>
        (\<not> list_ex (inTree (fileStorePath orc)) (dirs w1) \<longrightarrow>
           dirs (snd (orasReadCloser_Close e orc w1)) = dirs w1)"
    by (cases "orasReadCloser_Close e orc w") simp
next
  show "case Close e (StoreStream s) w of
      (err1, w1) \<Rightarrow>
        Close e (StoreStream s) w1 =
          (streamCloseResult e s (Suc (count_list (calls w) (CallStreamClose s))),
           \<lparr>dirs = dirs w, logs = logs w,
            calls = calls w @ [CallStreamClose s, CallStreamClose s]\<rparr>)"
    by (cases w) (simp add: stream_Close_def called_def)
qed

theorem second_Close_repeats_witness:
  "orasReadCloser_Close (exampleEnv [])
     \<lparr>fileStorePath = ''/var/lib/seeder/oras-provider-file-store-1'', rc = ContentStream 3\<rparr>
     (snd (orasReadCloser_Close (exampleEnv [])
        \<lparr>fileStorePath = ''/var/lib/seeder/oras-provider-file-store-1'', rc = ContentStream 3\<rparr>
        \<lparr>dirs = [''/var/lib/seeder/oras-provider-file-store-1''], logs = [], calls = []\<rparr>)) =
   (Some (Error ''file already closed''),
    \<lparr>dirs = [],
     logs = [\<lparr>entryLevel = DebugLevel,
              entryMsg = ''oras: ReadCloser: cleaning up temporary file store path on Close'',
              entryFields = [(''fileStorePath'', ''/var/lib/seeder/oras-provider-file-store-1'')]\<rparr>,
             \<lparr>entryLevel = DebugLevel,
              entryMsg = ''oras: ReadCloser: cleaning up temporary file store path on Close'',
              entryFields = [(''fileStorePath'', ''/var/lib/seeder/oras-provider-file-store-1'')]\<rparr>],
     calls = [CallStreamClose (ContentStream 3),
              CallRemoveAll ''/var/lib/seeder/oras-provider-file-store-1'',
              CallStreamClose (ContentStream 3),
              CallRemoveAll ''/var/lib/seeder/oras-provider-file-store-1'']\<rparr>) \<and>
   removeAllResult (exampleEnv []) ''/var/lib/seeder/oras-provider-file-store-1'' 0 = None \<and>
   \<not> list_ex (inTree ''/var/lib/seeder/oras-provider-file-store-1'')
       (dirs (snd (orasReadCloser_Close (exampleEnv [])
          \<lparr>fileStorePath = ''/var/lib/seeder/oras-provider-file-store-1'', rc = ContentStream 3\<rparr>
          \<lparr>dirs = [''/var/lib/seeder/oras-provider-file-store-1''], logs = [], calls = []\<rparr>)))"
proof -
  let ?orc = "\<lparr>fileStorePath = ''/var/lib/seeder/oras-provider-file-store-1'', rc = ContentStream 3\<rparr>"
  let ?w = "\<lparr>dirs = [''/var/lib/seeder/oras-provider-file-store-1''], logs = [], calls = []\<rparr>"
  let ?w1 = "\<lparr>dirs = [],
     logs = [\<lparr>entryLevel = DebugLevel,
              entryMsg = ''oras: ReadCloser: cleaning up temporary file store path on Close'',
              entryFields = [(''fileStorePath'', ''/var/lib/seeder/oras-provider-file-store-1'')]\<rparr>],
     calls = [CallStreamClose (ContentStream 3),
              CallRemoveAll ''/var/lib/seeder/oras-provider-file-store-1'']\<rparr>"
  have first: "orasReadCloser_Close (exampleEnv []) ?orc ?w = (None, ?w1)"
    by (simp add: orasReadCloser_Close_def stream_Close_def os_RemoveAll_def called_def
      logDebug_def zap_String_def Let_def exampleEnv_def inTree_def)
  have r: "removeAllResult (exampleEnv []) (fileStorePath ?orc) n = None" for n
    by (simp add: exampleEnv_def)
  have c: "streamCloseResult (exampleEnv []) (rc ?orc) (Suc 0) = Some (Error ''file already closed'')"
    by (simp add: exampleEnv_def)
  from second_Close_repeats [of "exampleEnv []" ?orc ?w "ContentStream 3", THEN conjunct1]
  have "orasReadCloser_Close (exampleEnv []) ?orc ?w1 =
      (Some (Error ''file already closed''),
       \<lparr>dirs = [],
        logs = [\<lparr>entryLevel = DebugLevel,
              entryMsg = ''oras: ReadCloser: cleaning up temporary file store path on Close'',
              entryFields = [(''fileStorePath'', ''/var/lib/seeder/oras-provider-file-store-1'')]\<rparr>,
             \<lparr>entryLevel = DebugLevel,
              entryMsg = ''oras: ReadCloser: cleaning up temporary file store path on Close'',
              entryFields = [(''fileStorePath'', ''/var/lib/seeder/oras-provider-file-store-1'')]\<rparr>],
        calls = [CallStreamClose (ContentStream 3),
              CallRemoveAll ''/var/lib/seeder/oras-provider-file-store-1'',
              CallStreamClose (ContentStream 3),
              CallRemoveAll ''/var/lib/seeder/oras-provider-file-store-1'']\<rparr>) \<and>
      \<not> list_ex (inTree ''/var/lib/seeder/oras-provider-file-store-1'') (dirs ?w1)"
    unfolding first using r c by simp
  with first r [of 0] show ?thesis
    by simp
qed

end
